theory Spec2Isabelle
  imports Main "HOL-Library.Word"
begin

unbundle bit_operations_syntax

section \<open>Machine types\<close>

type_synonym u8 = "8 word"
type_synonym u16 = "16 word"
type_synonym uint = "32 word"
type_synonym u64 = "64 word"

section \<open>Interrupt lines\<close>

text \<open>
  \<^verbatim>\<open>Interrupts::Type\<close>. The value \<^verbatim>\<open>NONE\<close> is the one that converts to
  \<^verbatim>\<open>false\<close> in \<^verbatim>\<open>if (Interrupts::Type interrupt = this->interrupt.get())\<close>.
\<close>

datatype Interrupt = NONE | RESET | NMI | IRQ

text \<open>
  Modelled from the spec: the class \<^verbatim>\<open>InterruptLines\<close> (its header and implementation
  are not among the sources). One pending bit per kind; \<^verbatim>\<open>request\<close> sets it,
  \<^verbatim>\<open>service\<close> clears it, \<^verbatim>\<open>get\<close> returns the pending kind of highest priority
  (RESET, then NMI, then IRQ) or \<^verbatim>\<open>NONE\<close>.
\<close>

record InterruptLines =
  pending_reset :: bool
  pending_nmi :: bool
  pending_irq :: bool

definition interrupt_get :: "InterruptLines \<Rightarrow> Interrupt" where
  "interrupt_get l =
     (if pending_reset l then RESET
      else if pending_nmi l then NMI
      else if pending_irq l then IRQ
      else NONE)"

fun interrupt_request :: "Interrupt \<Rightarrow> InterruptLines \<Rightarrow> InterruptLines" where
  "interrupt_request NONE l = l"
| "interrupt_request RESET l = l\<lparr>pending_reset := True\<rparr>"
| "interrupt_request NMI l = l\<lparr>pending_nmi := True\<rparr>"
| "interrupt_request IRQ l = l\<lparr>pending_irq := True\<rparr>"

fun interrupt_service :: "Interrupt \<Rightarrow> InterruptLines \<Rightarrow> InterruptLines" where
  "interrupt_service NONE l = l"
| "interrupt_service RESET l = l\<lparr>pending_reset := False\<rparr>"
| "interrupt_service NMI l = l\<lparr>pending_nmi := False\<rparr>"
| "interrupt_service IRQ l = l\<lparr>pending_irq := False\<rparr>"

section \<open>Memory bus\<close>

text \<open>
  Modelled from the spec: the \<^verbatim>\<open>Memory\<close> interface (declared in a header that is not
  among the sources). The bus is a flat store of 65536 bytes: \<^verbatim>\<open>mem[addr]\<close> read is
  application, \<^verbatim>\<open>mem[addr] = val\<close> is a function update, and a read has no side effect.
  \<^verbatim>\<open>read16\<close> is two consecutive reads, little-endian.
\<close>

type_synonym Memory = "u16 \<Rightarrow> u8"

definition read16 :: "Memory \<Rightarrow> u16 \<Rightarrow> u16" where
  "read16 m addr = ucast (m addr) OR push_bit 8 (ucast (m (addr + 1)))"

text \<open>
  Modelled from the spec: \<^verbatim>\<open>Memory::read16_zpg\<close>. The CPU passes it a 16-bit pointer
  in the \<^verbatim>\<open>ind_\<close> addressing mode and an 8-bit one in \<^verbatim>\<open>indY\<close> and \<^verbatim>\<open>Xind\<close>. The
  low byte is read at \<open>addr\<close>; the high byte is read at the next address within the
  same 256-byte page (the 6502 wrap bug). For a zero-page address this is "low byte at
  \<open>addr\<close>, high byte at \<open>(addr + 1) & 0xFF\<close>"; for indirect JMP it is "at \<open>$xxFF\<close>
  reads high from \<open>$xx00\<close>".
\<close>

definition read16_zpg :: "Memory \<Rightarrow> u16 \<Rightarrow> u16" where
  "read16_zpg m addr =
     ucast (m addr) OR
     push_bit 8 (ucast (m ((addr AND 0xFF00) OR ((addr + 1) AND 0x00FF))))"

section \<open>Opcode descriptors\<close>

text \<open>
  \<^verbatim>\<open>Instructions::AddrM\<close>. The source's \<^verbatim>\<open>abs_\<close>, \<^verbatim>\<open>ind_\<close>, \<^verbatim>\<open>zpg_\<close> and \<^verbatim>\<open>acc\<close>
  carry the suffix \<open>_m\<close> here, and the instruction \<^verbatim>\<open>AND\<close> is \<open>AND_i\<close>.
\<close>

datatype AddrM =
    abs_m | absX | absY | ind_m | indY | Xind | zpg_m | zpgX | zpgY
  | rel | imm | acc_m | impl | INVALID

text \<open>
  The instructions that \<^verbatim>\<open>CPU::step\<close> dispatches on, in the order of its
  \<^verbatim>\<open>switch\<close>. \<open>INVALID_instr\<close> stands for every other value of the enumeration
  (the \<^verbatim>\<open>default\<close> branch).
\<close>

datatype Instr =
    JMP | LDX | STX | JSR | NOP | SEC | CLC | CLI | BCS | BCC | BEQ | BNE
  | LDA | STA | BIT | BVS | BVC | BPL | RTS | AND_i | SEI | SED | PHP | PLA
  | CMP | CLD | PHA | PLP | BMI | ORA | CLV | EOR | ADC | SBC | LDY | CPY
  | CPX | INY | INX | DEY | DEX | STY | TAY | TAX | TYA | TXA | TSX | TXS
  | RTI | BRK | LSR | ASL | ROR | ROL | INC | DEC | INVALID_instr

record Opcode =
  raw :: u8
  instr :: Instr
  addrm :: AddrM
  op_cycles :: u8
  check_pg_cross :: bool

text \<open>
  The table \<^verbatim>\<open>Instructions::Opcodes\<close> is not among the sources: \<^verbatim>\<open>step\<close> takes it as
  a parameter of this type.
\<close>

type_synonym OpcodeTable = "u8 \<Rightarrow> Opcode"

section \<open>CPU state\<close>

datatype State = Running | Halted

text \<open>
  The object \<^verbatim>\<open>CPU\<close>: the registers \<^verbatim>\<open>reg.pc\<close>, \<^verbatim>\<open>reg.s\<close>, \<^verbatim>\<open>reg.a\<close>,
  \<^verbatim>\<open>reg.x\<close>, \<^verbatim>\<open>reg.y\<close>, \<^verbatim>\<open>reg.p.raw\<close>, the cycle counter, the state, and the two
  objects it holds by reference (the bus and the interrupt lines). The class declaration
  is not among the sources; the widths of the registers and of the cycle counter
  (64 bits) are those of the spec's data model.
\<close>

record CPU =
  reg_pc :: u16
  reg_s :: u8
  reg_a :: u8
  reg_x :: u8
  reg_y :: u8
  reg_p :: u8
  cycles :: u64
  state :: State
  mem :: Memory
  interrupt :: InterruptLines

text \<open>
  The status register is a union of the byte \<^verbatim>\<open>raw\<close> and eight one-bit fields. Bit
  positions, from the comment in \<^verbatim>\<open>power_cycle\<close> (\<^verbatim>\<open>0x34\<close> is "Interrupt = 1,
  Break = 1, Unused = 1") and the 6502 layout: C 0, Z 1, I 2, D 3, B 4, U 5, V 6, N 7.
  Modelled from the spec: assigning to a flag stores whether the assigned value is
  non-zero (\<^verbatim>\<open>ADC\<close> and \<^verbatim>\<open>SBC\<close> assign \<^verbatim>\<open>... & 0x80\<close> to \<^verbatim>\<open>p.v\<close>).
\<close>

definition flag_c :: nat where "flag_c = 0"
definition flag_z :: nat where "flag_z = 1"
definition flag_i :: nat where "flag_i = 2"
definition flag_d :: nat where "flag_d = 3"
definition flag_b :: nat where "flag_b = 4"
definition flag_u :: nat where "flag_u = 5"
definition flag_v :: nat where "flag_v = 6"
definition flag_n :: nat where "flag_n = 7"

definition get_flag :: "nat \<Rightarrow> CPU \<Rightarrow> bool" where
  "get_flag n c = bit (reg_p c) n"

definition set_flag :: "nat \<Rightarrow> bool \<Rightarrow> CPU \<Rightarrow> CPU" where
  "set_flag n b c =
     c\<lparr>reg_p := (if b then reg_p c OR push_bit n 1 else reg_p c AND NOT (push_bit n 1))\<rparr>"

definition nth_bit :: "u8 \<Rightarrow> nat \<Rightarrow> bool" where
  "nth_bit val n = bit val n"

definition carry :: "CPU \<Rightarrow> u8" where
  "carry c = (if get_flag flag_c c then 1 else 0)"

section \<open>Power-up and reset\<close>

definition power_cycle :: "CPU \<Rightarrow> CPU" where
  "power_cycle c =
     c\<lparr>cycles := 0, reg_p := 0x34, reg_a := 0x00, reg_x := 0x00, reg_y := 0x00,
       reg_s := 0xFD, state := Running\<rparr>"

definition reset :: "CPU \<Rightarrow> CPU" where
  "reset c = (set_flag flag_i True (c\<lparr>reg_s := reg_s c - 3\<rparr>))\<lparr>state := Running\<rparr>"

definition getState :: "CPU \<Rightarrow> State" where
  "getState c = state c"

section \<open>Stack helpers\<close>

text \<open>
  \<^verbatim>\<open>this->mem[0x0100 + this->reg.s--] = val\<close> writes at the old stack pointer and then
  decrements it; \<^verbatim>\<open>this->mem[0x0100 + ++this->reg.s]\<close> increments first. The stack
  pointer is a \<^verbatim>\<open>u8\<close> and wraps.
\<close>

definition s_push :: "u8 \<Rightarrow> CPU \<Rightarrow> CPU" where
  "s_push val c = c\<lparr>mem := (mem c)(0x0100 + ucast (reg_s c) := val), reg_s := reg_s c - 1\<rparr>"

definition s_pull :: "CPU \<Rightarrow> u8 \<times> CPU" where
  "s_pull c =
     (let c' = c\<lparr>reg_s := reg_s c + 1\<rparr>
      in (mem c' (0x0100 + ucast (reg_s c')), c'))"

definition s_pull16 :: "CPU \<Rightarrow> u16 \<times> CPU" where
  "s_pull16 c =
     (let (lo, c1) = s_pull c;
          (hi, c2) = s_pull c1
      in (push_bit 8 (ucast hi) OR ucast lo, c2))"

definition s_push16 :: "u16 \<Rightarrow> CPU \<Rightarrow> CPU" where
  "s_push16 val c = s_push (ucast (val AND 0xFF)) (s_push (ucast (drop_bit 8 val)) c)"

section \<open>Interrupt servicing\<close>

text \<open>
  \<^verbatim>\<open>CPU::service_interrupt\<close>, as built without \<^verbatim>\<open>NESTEST\<close>. Its callers never pass
  \<^verbatim>\<open>NONE\<close> (\<^verbatim>\<open>step\<close> passes the pending kind, \<^verbatim>\<open>BRK\<close> passes \<^verbatim>\<open>IRQ\<close>), so the
  assertion at its head holds; \<^verbatim>\<open>NONE\<close> takes the \<^verbatim>\<open>default\<close> branch of the switch.
\<close>

definition service_interrupt :: "Interrupt \<Rightarrow> bool \<Rightarrow> CPU \<Rightarrow> CPU" where
  "service_interrupt intr brk c0 =
     (let c1 = set_flag flag_i True c0;
          c2 = (if intr \<noteq> RESET then s_push (reg_p c1) (s_push16 (reg_pc c1) c1) else c1);
          c3 = c2\<lparr>cycles := cycles c2 + 7\<rparr>;
          c4 = (case intr of
                  IRQ \<Rightarrow> if brk \<or> \<not> get_flag flag_i c3
                         then c3\<lparr>reg_pc := read16 (mem c3) 0xFFFE\<rparr> else c3
                | RESET \<Rightarrow> c3\<lparr>reg_pc := read16 (mem c3) 0xFFFC\<rparr>
                | NMI \<Rightarrow> c3\<lparr>reg_pc := read16 (mem c3) 0xFFFA\<rparr>
                | NONE \<Rightarrow> c3)
      in c4\<lparr>interrupt := interrupt_service intr (interrupt c4)\<rparr>)"

section \<open>Operand addresses\<close>

text \<open>
  The two macros of \<^verbatim>\<open>get_operand_addr\<close>: \<^verbatim>\<open>arg8\<close> reads the byte at \<^verbatim>\<open>pc\<close> and
  advances it by one, \<^verbatim>\<open>arg16\<close> reads the little-endian word at \<^verbatim>\<open>pc\<close> and advances
  it by two.
\<close>

definition arg8 :: "CPU \<Rightarrow> u8 \<times> CPU" where
  "arg8 c = (mem c (reg_pc c), c\<lparr>reg_pc := reg_pc c + 1\<rparr>)"

definition arg16 :: "CPU \<Rightarrow> u16 \<times> CPU" where
  "arg16 c = (read16 (mem c) (reg_pc c), c\<lparr>reg_pc := reg_pc c + 2\<rparr>)"

text \<open>
  The first \<^verbatim>\<open>switch\<close>. The sums are computed in \<^verbatim>\<open>int\<close> and stored in a \<^verbatim>\<open>u16\<close>,
  which is addition of 16-bit words; \<^verbatim>\<open>& 0xFF\<close> on a sum of two bytes is addition of
  8-bit words. \<^verbatim>\<open>u8(0xFACA11)\<close> is \<^verbatim>\<open>0x11\<close>.
\<close>

fun operand_addr :: "AddrM \<Rightarrow> CPU \<Rightarrow> u16 \<times> CPU" where
  "operand_addr abs_m c = arg16 c"
| "operand_addr absX c = (let (v, c1) = arg16 c in (v + ucast (reg_x c1), c1))"
| "operand_addr absY c = (let (v, c1) = arg16 c in (v + ucast (reg_y c1), c1))"
| "operand_addr ind_m c = (let (v, c1) = arg16 c in (read16_zpg (mem c1) v, c1))"
| "operand_addr indY c =
     (let (v, c1) = arg8 c in (read16_zpg (mem c1) (ucast v) + ucast (reg_y c1), c1))"
| "operand_addr Xind c =
     (let (v, c1) = arg8 c in (read16_zpg (mem c1) (ucast (v + reg_x c1)), c1))"
| "operand_addr zpg_m c = (let (v, c1) = arg8 c in (ucast v, c1))"
| "operand_addr zpgX c = (let (v, c1) = arg8 c in (ucast (v + reg_x c1), c1))"
| "operand_addr zpgY c = (let (v, c1) = arg8 c in (ucast (v + reg_y c1), c1))"
| "operand_addr rel c = (reg_pc c, c\<lparr>reg_pc := reg_pc c + 1\<rparr>)"
| "operand_addr imm c = (reg_pc c, c\<lparr>reg_pc := reg_pc c + 1\<rparr>)"
| "operand_addr acc_m c = (ucast (reg_a c), c)"
| "operand_addr impl c = (0x11, c)"
| "operand_addr INVALID c = (0xBAD, c)"

definition did_pg_cross :: "u16 \<Rightarrow> u16 \<Rightarrow> bool" where
  "did_pg_cross a b = ((a AND 0xFF00) \<noteq> (b AND 0xFF00))"

text \<open>
  The second \<^verbatim>\<open>switch\<close>: one more cycle when the indexed address left the page of
  its base. \<^verbatim>\<open>addr - this->reg.x\<close> is an \<^verbatim>\<open>int\<close>; under \<^verbatim>\<open>& 0xFF00\<close> it agrees with
  the 16-bit difference.
\<close>

definition pg_cross_cycles :: "AddrM \<Rightarrow> u16 \<Rightarrow> CPU \<Rightarrow> CPU" where
  "pg_cross_cycles m addr c =
     (if m = absX then
        c\<lparr>cycles := cycles c + (if did_pg_cross (addr - ucast (reg_x c)) addr then 1 else 0)\<rparr>
      else if m = absY \<or> m = indY then
        c\<lparr>cycles := cycles c + (if did_pg_cross (addr - ucast (reg_y c)) addr then 1 else 0)\<rparr>
      else c)"

definition get_operand_addr :: "Opcode \<Rightarrow> CPU \<Rightarrow> u16 \<times> CPU" where
  "get_operand_addr opcode c =
     (if addrm opcode = INVALID then (0xBAD, c)
      else
        let (addr, c1) = operand_addr (addrm opcode) c
        in (addr, if check_pg_cross opcode then pg_cross_cycles (addrm opcode) addr c1 else c1))"

section \<open>Instructions\<close>

definition set_zn :: "u8 \<Rightarrow> CPU \<Rightarrow> CPU" where
  "set_zn val c = set_flag flag_n (nth_bit val 7) (set_flag flag_z (val = 0) c)"

text \<open>
  The macro \<^verbatim>\<open>branch(cond)\<close>. \<^verbatim>\<open>offset\<close> is the operand byte read as an \<^verbatim>\<open>i8\<close>;
  \<^verbatim>\<open>this->reg.pc + offset\<close> is an \<^verbatim>\<open>int\<close> that \<^verbatim>\<open>& 0xFF00\<close> and the store into
  \<^verbatim>\<open>pc\<close> both reduce to 16 bits, so it is the 16-bit sum with the offset sign-extended.
\<close>

definition branch :: "bool \<Rightarrow> u16 \<Rightarrow> CPU \<Rightarrow> CPU" where
  "branch cond addr c =
     (if \<not> cond then c
      else
        let offset = mem c addr;
            c1 = c\<lparr>cycles := cycles c + 1\<rparr>;
            c2 = (if (reg_pc c1 AND 0xFF00) \<noteq> ((reg_pc c1 + scast offset) AND 0xFF00)
                  then c1\<lparr>cycles := cycles c1 + 2\<rparr> else c1)
        in c2\<lparr>reg_pc := reg_pc c2 + scast offset\<rparr>)"

definition mem_write :: "u16 \<Rightarrow> u8 \<Rightarrow> CPU \<Rightarrow> CPU" where
  "mem_write addr val c = c\<lparr>mem := (mem c)(addr := val)\<rparr>"

text \<open>The read-modify-write bodies shared by the two arms of the shifts and rotates.\<close>

definition lsr_val :: "u8 \<Rightarrow> CPU \<Rightarrow> u8 \<times> CPU" where
  "lsr_val val c = (drop_bit 1 val, set_flag flag_c (nth_bit val 0) c)"

definition asl_val :: "u8 \<Rightarrow> CPU \<Rightarrow> u8 \<times> CPU" where
  "asl_val val c = (push_bit 1 val, set_flag flag_c (nth_bit val 7) c)"

definition ror_val :: "u8 \<Rightarrow> CPU \<Rightarrow> u8 \<times> CPU" where
  "ror_val val c =
     (drop_bit 1 val OR push_bit 7 (carry c), set_flag flag_c (nth_bit val 0) c)"

definition rol_val :: "u8 \<Rightarrow> CPU \<Rightarrow> u8 \<times> CPU" where
  "rol_val val c = (push_bit 1 val OR carry c, set_flag flag_c (nth_bit val 7) c)"

definition rmw :: "(u8 \<Rightarrow> CPU \<Rightarrow> u8 \<times> CPU) \<Rightarrow> Opcode \<Rightarrow> u16 \<Rightarrow> CPU \<Rightarrow> CPU" where
  "rmw f opcode addr c =
     (if addrm opcode = acc_m then
        (let (v, c1) = f (reg_a c) c; c2 = c1\<lparr>reg_a := v\<rparr> in set_zn (reg_a c2) c2)
      else
        (let (v, c1) = f (mem c addr) c in mem_write addr v (set_zn v c1)))"

definition compare :: "u8 \<Rightarrow> u16 \<Rightarrow> CPU \<Rightarrow> CPU" where
  "compare r addr c =
     (let val = mem c addr in set_zn (r - val) (set_flag flag_c (r \<ge> val) c))"

text \<open>
  \<^verbatim>\<open>ADC\<close> and \<^verbatim>\<open>SBC\<close>: \<^verbatim>\<open>sum\<close> is a \<^verbatim>\<open>u16\<close>. In \<^verbatim>\<open>SBC\<close>, \<^verbatim>\<open>~val\<close> is the complement
  of the promoted \<^verbatim>\<open>int\<close>, which after the store into \<^verbatim>\<open>sum\<close> is the 16-bit complement
  of the zero-extended byte.
\<close>

definition adc :: "u16 \<Rightarrow> CPU \<Rightarrow> CPU" where
  "adc addr c =
     (let val = mem c addr;
          sum = (ucast (reg_a c) + ucast val + ucast (carry c) :: u16);
          c1 = set_flag flag_c (sum > 0xFF) c;
          c2 = set_flag flag_z ((ucast sum :: u8) = 0) c1;
          c3 = set_flag flag_v
                 ((NOT (ucast (reg_a c2) XOR ucast val) AND (ucast (reg_a c2) XOR sum) AND 0x80)
                    \<noteq> 0) c2;
          c4 = set_flag flag_n (nth_bit (ucast sum) 7) c3
      in c4\<lparr>reg_a := ucast sum\<rparr>)"

definition sbc :: "u16 \<Rightarrow> CPU \<Rightarrow> CPU" where
  "sbc addr c =
     (let val = mem c addr;
          sum = (ucast (reg_a c) + NOT (ucast val) + ucast (carry c) :: u16);
          c1 = set_flag flag_c (\<not> (sum > 0xFF)) c;
          c2 = set_flag flag_z ((ucast sum :: u8) = 0) c1;
          c3 = set_flag flag_v
                 ((NOT (ucast (reg_a c2) XOR NOT (ucast val)) AND (ucast (reg_a c2) XOR sum)
                     AND 0x80) \<noteq> 0) c2;
          c4 = set_flag flag_n (nth_bit (ucast sum) 7) c3
      in c4\<lparr>reg_a := ucast sum\<rparr>)"

text \<open>
  The \<^verbatim>\<open>switch (opcode.instr)\<close> of \<^verbatim>\<open>CPU::step\<close>, one equation per \<^verbatim>\<open>case\<close>. The
  diagnostic printed by the \<^verbatim>\<open>default\<close> branch is not part of the state.
\<close>

fun exec_instr :: "Instr \<Rightarrow> Opcode \<Rightarrow> u16 \<Rightarrow> CPU \<Rightarrow> CPU" where
  "exec_instr JMP opcode addr c = c\<lparr>reg_pc := addr\<rparr>"
| "exec_instr LDX opcode addr c = (let c1 = c\<lparr>reg_x := mem c addr\<rparr> in set_zn (reg_x c1) c1)"
| "exec_instr STX opcode addr c = mem_write addr (reg_x c) c"
| "exec_instr JSR opcode addr c = (s_push16 (reg_pc c - 1) c)\<lparr>reg_pc := addr\<rparr>"
| "exec_instr NOP opcode addr c = c"
| "exec_instr SEC opcode addr c = set_flag flag_c True c"
| "exec_instr CLC opcode addr c = set_flag flag_c False c"
| "exec_instr CLI opcode addr c = set_flag flag_i False c"
| "exec_instr BCS opcode addr c = branch (get_flag flag_c c) addr c"
| "exec_instr BCC opcode addr c = branch (\<not> get_flag flag_c c) addr c"
| "exec_instr BEQ opcode addr c = branch (get_flag flag_z c) addr c"
| "exec_instr BNE opcode addr c = branch (\<not> get_flag flag_z c) addr c"
| "exec_instr LDA opcode addr c = (let c1 = c\<lparr>reg_a := mem c addr\<rparr> in set_zn (reg_a c1) c1)"
| "exec_instr STA opcode addr c = mem_write addr (reg_a c) c"
| "exec_instr BIT opcode addr c =
     (let m = mem c addr;
          c1 = set_flag flag_z ((reg_a c AND m) = 0) c;
          c2 = set_flag flag_v (nth_bit m 6) c1
      in set_flag flag_n (nth_bit m 7) c2)"
| "exec_instr BVS opcode addr c = branch (get_flag flag_v c) addr c"
| "exec_instr BVC opcode addr c = branch (\<not> get_flag flag_v c) addr c"
| "exec_instr BPL opcode addr c = branch (\<not> get_flag flag_n c) addr c"
| "exec_instr RTS opcode addr c = (let (v, c1) = s_pull16 c in c1\<lparr>reg_pc := v + 1\<rparr>)"
| "exec_instr AND_i opcode addr c =
     (let c1 = c\<lparr>reg_a := reg_a c AND mem c addr\<rparr> in set_zn (reg_a c1) c1)"
| "exec_instr SEI opcode addr c = set_flag flag_i True c"
| "exec_instr SED opcode addr c = set_flag flag_d True c"
| "exec_instr PHP opcode addr c = s_push (reg_p c) c"
| "exec_instr PLA opcode addr c =
     (let (v, c1) = s_pull c; c2 = c1\<lparr>reg_a := v\<rparr> in set_zn (reg_a c2) c2)"
| "exec_instr CMP opcode addr c = compare (reg_a c) addr c"
| "exec_instr CLD opcode addr c = set_flag flag_d False c"
| "exec_instr PHA opcode addr c = s_push (reg_a c) c"
| "exec_instr PLP opcode addr c = (let (v, c1) = s_pull c in c1\<lparr>reg_p := v OR 0x20\<rparr>)"
| "exec_instr BMI opcode addr c = branch (get_flag flag_n c) addr c"
| "exec_instr ORA opcode addr c =
     (let c1 = c\<lparr>reg_a := reg_a c OR mem c addr\<rparr> in set_zn (reg_a c1) c1)"
| "exec_instr CLV opcode addr c = set_flag flag_v False c"
| "exec_instr EOR opcode addr c =
     (let c1 = c\<lparr>reg_a := reg_a c XOR mem c addr\<rparr> in set_zn (reg_a c1) c1)"
| "exec_instr ADC opcode addr c = adc addr c"
| "exec_instr SBC opcode addr c = sbc addr c"
| "exec_instr LDY opcode addr c = (let c1 = c\<lparr>reg_y := mem c addr\<rparr> in set_zn (reg_y c1) c1)"
| "exec_instr CPY opcode addr c = compare (reg_y c) addr c"
| "exec_instr CPX opcode addr c = compare (reg_x c) addr c"
| "exec_instr INY opcode addr c = (let c1 = c\<lparr>reg_y := reg_y c + 1\<rparr> in set_zn (reg_y c1) c1)"
| "exec_instr INX opcode addr c = (let c1 = c\<lparr>reg_x := reg_x c + 1\<rparr> in set_zn (reg_x c1) c1)"
| "exec_instr DEY opcode addr c = (let c1 = c\<lparr>reg_y := reg_y c - 1\<rparr> in set_zn (reg_y c1) c1)"
| "exec_instr DEX opcode addr c = (let c1 = c\<lparr>reg_x := reg_x c - 1\<rparr> in set_zn (reg_x c1) c1)"
| "exec_instr STY opcode addr c = mem_write addr (reg_y c) c"
| "exec_instr TAY opcode addr c = (let c1 = c\<lparr>reg_y := reg_a c\<rparr> in set_zn (reg_y c1) c1)"
| "exec_instr TAX opcode addr c = (let c1 = c\<lparr>reg_x := reg_a c\<rparr> in set_zn (reg_x c1) c1)"
| "exec_instr TYA opcode addr c = (let c1 = c\<lparr>reg_a := reg_y c\<rparr> in set_zn (reg_a c1) c1)"
| "exec_instr TXA opcode addr c = (let c1 = c\<lparr>reg_a := reg_x c\<rparr> in set_zn (reg_a c1) c1)"
| "exec_instr TSX opcode addr c = (let c1 = c\<lparr>reg_x := reg_s c\<rparr> in set_zn (reg_x c1) c1)"
| "exec_instr TXS opcode addr c = c\<lparr>reg_s := reg_x c\<rparr>"
| "exec_instr RTI opcode addr c =
     (let (v, c1) = s_pull c;
          c2 = c1\<lparr>reg_p := v OR 0x20\<rparr>;
          (w, c3) = s_pull16 c2
      in c3\<lparr>reg_pc := w\<rparr>)"
| "exec_instr BRK opcode addr c = service_interrupt IRQ True c"
| "exec_instr LSR opcode addr c = rmw lsr_val opcode addr c"
| "exec_instr ASL opcode addr c = rmw asl_val opcode addr c"
| "exec_instr ROR opcode addr c = rmw ror_val opcode addr c"
| "exec_instr ROL opcode addr c = rmw rol_val opcode addr c"
| "exec_instr INC opcode addr c =
     (let val = mem c addr + 1 in mem_write addr val (set_zn val c))"
| "exec_instr DEC opcode addr c =
     (let val = mem c addr - 1 in mem_write addr val (set_zn val c))"
| "exec_instr INVALID_instr opcode addr c = c\<lparr>state := Halted\<rparr>"

section \<open>One step\<close>

text \<open>
  \<^verbatim>\<open>CPU::step\<close>, as built without \<^verbatim>\<open>NESTEST\<close>. \<^verbatim>\<open>old_cycles\<close> is a \<^verbatim>\<open>uint\<close>, so
  the counter is truncated to 32 bits when it is saved; the difference is computed in
  the counter's width and truncated again when it is returned.
\<close>

definition elapsed :: "u64 \<Rightarrow> uint \<Rightarrow> uint" where
  "elapsed now old_cycles = ucast (now - ucast old_cycles)"

definition step :: "OpcodeTable \<Rightarrow> CPU \<Rightarrow> uint \<times> CPU" where
  "step Opcodes c0 =
     (let old_cycles = (ucast (cycles c0) :: uint) in
      if interrupt_get (interrupt c0) \<noteq> NONE then
        (let c1 = service_interrupt (interrupt_get (interrupt c0)) False c0
         in (elapsed (cycles c1) old_cycles, c1))
      else
        (let op = mem c0 (reg_pc c0);
             c1 = c0\<lparr>reg_pc := reg_pc c0 + 1\<rparr>;
             opcode = Opcodes op;
             (addr, c2) = get_operand_addr opcode c1;
             c3 = exec_instr (instr opcode) opcode addr c2;
             c4 = c3\<lparr>cycles := cycles c3 + ucast (op_cycles opcode)\<rparr>
         in (elapsed (cycles c4) old_cycles, c4)))"

section \<open>WideNES: 32-bit integers\<close>

text \<open>
  The \<^verbatim>\<open>int\<close> and \<^verbatim>\<open>uint\<close> of the module are 32 bits wide. An \<^verbatim>\<open>int\<close> is kept as
  an integer from \<open>- 2 ^ 31\<close> to \<open>2 ^ 31 - 1\<close>, and \<open>int32 n\<close> is what an \<^verbatim>\<open>int\<close>
  operation leaves when its exact result is \<open>n\<close>: the two's complement value of the low
  32 bits, so that \<^verbatim>\<open>INT_MAX + 5\<close> is \<open>- 2147483644\<close> (the language leaves signed
  overflow undefined; this is what the addition of the machine does). \<open>uint32 n\<close> is the
  conversion to \<^verbatim>\<open>uint\<close>, the exact value modulo \<open>2 ^ 32\<close>; it is the same whether
  or not the \<^verbatim>\<open>int\<close> operations inside the converted expression wrapped.
\<close>

definition int32 :: "int \<Rightarrow> int" where
  "int32 n = (n + 2147483648) mod 4294967296 - 2147483648"

definition uint32 :: "int \<Rightarrow> int" where
  "uint32 n = n mod 4294967296"

section \<open>WideNES: data\<close>

text \<open>\<^verbatim>\<open>struct nes_scroll { u8 x; u8 y; }\<close>.\<close>

record nes_scroll =
  ns_x :: u8
  ns_y :: u8

text \<open>One of the three padding quads \<^verbatim>\<open>{ int l, r, t, b; }\<close> of \<^verbatim>\<open>pad\<close>.\<close>

record Pad4 =
  pad_l :: int
  pad_r :: int
  pad_t :: int
  pad_b :: int

text \<open>The total scroll \<^verbatim>\<open>struct { int x, y; int dx, dy; } scroll\<close>.\<close>

record TotalScroll =
  sc_x :: int
  sc_y :: int
  sc_dx :: int
  sc_dy :: int

text \<open>
  \<^verbatim>\<open>struct Tile\<close>. The arrays \<^verbatim>\<open>done[16][15]\<close>, \<^verbatim>\<open>fill[16][15]\<close>, \<^verbatim>\<open>fb\<close> and
  \<^verbatim>\<open>fb_new\<close> are functions of their indices; the two textures belong to the renderer
  and are left out.
\<close>

record Tile =
  tile_x :: int
  tile_y :: int
  tile_done :: "int \<Rightarrow> int \<Rightarrow> bool"
  tile_fill :: "int \<Rightarrow> int \<Rightarrow> int"
  tile_fb :: "int \<Rightarrow> u8"
  tile_fb_new :: "int \<Rightarrow> u8"

text \<open>
  \<^verbatim>\<open>std::map<int, std::map<int, Tile*>> tiles\<close>. A \<^verbatim>\<open>Tile*\<close> is \<open>None\<close> when it is
  \<^verbatim>\<open>nullptr\<close> and \<open>Some tile\<close> when it points to a tile; every tile is pointed to
  from one map slot only, so the tile is kept in the slot.
\<close>

type_synonym TileMap = "int \<rightharpoonup> (int \<rightharpoonup> Tile option)"

text \<open>
  The fields of \<^verbatim>\<open>WideNESModule\<close> that the callbacks read and write. The nested
  structs \<^verbatim>\<open>pad\<close> and \<^verbatim>\<open>h\<close> are flattened: \<^verbatim>\<open>h.ppuaddr.changed.on_scanline\<close> is
  \<open>h_ppuaddr_changed_on_scanline\<close>, and so on.
\<close>

record WideNES =
  tiles :: TileMap
  pad_guess :: Pad4
  pad_offset :: Pad4
  pad_total :: Pad4
  last_scroll :: nes_scroll
  curr_scroll :: nes_scroll
  scroll :: TotalScroll
  h_ppuscroll_curr :: nes_scroll
  h_mmc3_irq_happened :: bool
  h_mmc3_irq_on_scanline :: uint
  h_mmc3_irq_scroll_pre_irq :: nes_scroll
  h_ppuaddr_did_change :: bool
  h_ppuaddr_changed_on_scanline :: uint
  h_ppuaddr_changed_while_rendering :: bool
  h_ppuaddr_active :: bool
  h_ppuaddr_frame_counter :: uint
  h_ppuaddr_cut_scanline :: uint
  h_ppuaddr_new_scroll :: nes_scroll

text \<open>The member initialisers of \<^verbatim>\<open>widenes.h\<close>.\<close>

definition zero_scroll :: nes_scroll where
  "zero_scroll = \<lparr>ns_x = 0, ns_y = 0\<rparr>"

definition zero_pad :: Pad4 where
  "zero_pad = \<lparr>pad_l = 0, pad_r = 0, pad_t = 0, pad_b = 0\<rparr>"

definition wn_init :: WideNES where
  "wn_init =
     \<lparr>tiles = Map.empty,
      pad_guess = zero_pad, pad_offset = zero_pad, pad_total = zero_pad,
      last_scroll = zero_scroll, curr_scroll = zero_scroll,
      scroll = \<lparr>sc_x = 0, sc_y = 0, sc_dx = 0, sc_dy = 0\<rparr>,
      h_ppuscroll_curr = zero_scroll,
      h_mmc3_irq_happened = False,
      h_mmc3_irq_on_scanline = 239,
      h_mmc3_irq_scroll_pre_irq = zero_scroll,
      h_ppuaddr_did_change = False,
      h_ppuaddr_changed_on_scanline = 0,
      h_ppuaddr_changed_while_rendering = False,
      h_ppuaddr_active = False,
      h_ppuaddr_frame_counter = 0,
      h_ppuaddr_cut_scanline = 0,
      h_ppuaddr_new_scroll = zero_scroll\<rparr>"

text \<open>
  What the callbacks read from the PPU (the class \<^verbatim>\<open>PPU\<close> is not among the sources):
  the scanline, the registers \<^verbatim>\<open>scroll_latch\<close>, \<^verbatim>\<open>ppumask.is_rendering\<close>,
  \<^verbatim>\<open>ppumask.m\<close>, \<^verbatim>\<open>t.coarse_x\<close> and \<^verbatim>\<open>t.coarse_y\<close> (five bits each), and the
  background framebuffer of \<^verbatim>\<open>getFramebuffBgr\<close>.
\<close>

record PPUView =
  ppu_scanline :: uint
  ppu_scroll_latch :: bool
  ppu_is_rendering :: bool
  ppu_mask_m :: bool
  ppu_coarse_x :: "5 word"
  ppu_coarse_y :: "5 word"
  ppu_framebuff_bgr :: "int \<Rightarrow> u8"

text \<open>
  Modelled from the spec: the register addresses \<^verbatim>\<open>PPURegisters::PPUSCROLL\<close> and
  \<^verbatim>\<open>PPURegisters::PPUADDR\<close>, \<open>$2005\<close> and \<open>$2006\<close>.
\<close>

definition PPUSCROLL :: u16 where "PPUSCROLL = 0x2005"
definition PPUADDR :: u16 where "PPUADDR = 0x2006"

section \<open>WideNES: register writes, mapper interrupts, keys\<close>

definition ppu_write_end_handler :: "PPUView \<Rightarrow> u16 \<Rightarrow> u8 \<Rightarrow> WideNES \<Rightarrow> WideNES" where
  "ppu_write_end_handler ppu addr val w =
     (if addr = PPUSCROLL then
        (let w1 = (if ppu_scroll_latch ppu
                   then w\<lparr>h_ppuscroll_curr := (h_ppuscroll_curr w)\<lparr>ns_x := val\<rparr>\<rparr> else w)
         in (if \<not> ppu_scroll_latch ppu
             then w1\<lparr>h_ppuscroll_curr := (h_ppuscroll_curr w1)\<lparr>ns_y := val\<rparr>\<rparr> else w1))
      else if addr = PPUADDR then
        (let w1 = w\<lparr>h_ppuaddr_did_change := True\<rparr>;
             w2 = w1\<lparr>h_ppuaddr_changed_while_rendering := ppu_is_rendering ppu\<rparr>;
             w3 = w2\<lparr>h_ppuaddr_changed_on_scanline := ppu_scanline ppu\<rparr>;
             w4 = (if ppu_scroll_latch ppu
                   then w3\<lparr>h_ppuaddr_new_scroll :=
                            (h_ppuaddr_new_scroll w3)\<lparr>ns_x := 8 * ucast (ppu_coarse_x ppu)\<rparr>\<rparr>
                   else w3)
         in (if \<not> ppu_scroll_latch ppu
             then w4\<lparr>h_ppuaddr_new_scroll :=
                      (h_ppuaddr_new_scroll w4)\<lparr>ns_y := 8 * ucast (ppu_coarse_y ppu)\<rparr>\<rparr>
             else w4))
      else w)"

text \<open>
  \<^verbatim>\<open>mmc3_irq_handler\<close>; \<open>irq_latch\<close> is the value of \<^verbatim>\<open>mmc3->peek_irq_latch()\<close>, a
  \<^verbatim>\<open>u8\<close>.
\<close>

definition mmc3_irq_handler :: "u8 \<Rightarrow> bool \<Rightarrow> WideNES \<Rightarrow> WideNES" where
  "mmc3_irq_handler irq_latch irq_enabled w =
     w\<lparr>h_mmc3_irq_scroll_pre_irq := h_ppuscroll_curr w,
       h_mmc3_irq_happened := True,
       h_mmc3_irq_on_scanline := (if irq_enabled then ucast irq_latch else 239)\<rparr>"

text \<open>
  The key presses of \<^verbatim>\<open>WideNESModule::input\<close> that change the state of the engine;
  mouse events change the pan and zoom of the renderer only. \<open>in_menu\<close> is
  \<^verbatim>\<open>gui.status.in_menu\<close>, \<open>mod_shift\<close> the shift modifier.
\<close>

datatype Key =
    SDLK_ESCAPE | SDLK_k | SDLK_e | SDLK_3 | SDLK_d | SDLK_c | SDLK_s | SDLK_a | SDLK_f
  | SDLK_g | SDLK_other

definition key_amount :: "bool \<Rightarrow> int" where
  "key_amount mod_shift = (if mod_shift then 1 else 8)"

fun keydown :: "Key \<Rightarrow> bool \<Rightarrow> WideNES \<Rightarrow> WideNES" where
  "keydown SDLK_ESCAPE mod_shift w = w"
| "keydown SDLK_k mod_shift w = w\<lparr>tiles := Map.empty\<rparr>"
| "keydown SDLK_e mod_shift w =
     w\<lparr>pad_offset :=
         (pad_offset w)\<lparr>pad_t := int32 (pad_t (pad_offset w) + key_amount mod_shift)\<rparr>\<rparr>"
| "keydown SDLK_3 mod_shift w =
     w\<lparr>pad_offset :=
         (pad_offset w)\<lparr>pad_t := int32 (pad_t (pad_offset w) - key_amount mod_shift)\<rparr>\<rparr>"
| "keydown SDLK_d mod_shift w =
     w\<lparr>pad_offset :=
         (pad_offset w)\<lparr>pad_b := int32 (pad_b (pad_offset w) + key_amount mod_shift)\<rparr>\<rparr>"
| "keydown SDLK_c mod_shift w =
     w\<lparr>pad_offset :=
         (pad_offset w)\<lparr>pad_b := int32 (pad_b (pad_offset w) - key_amount mod_shift)\<rparr>\<rparr>"
| "keydown SDLK_s mod_shift w =
     w\<lparr>pad_offset :=
         (pad_offset w)\<lparr>pad_l := int32 (pad_l (pad_offset w) + key_amount mod_shift)\<rparr>\<rparr>"
| "keydown SDLK_a mod_shift w =
     w\<lparr>pad_offset :=
         (pad_offset w)\<lparr>pad_l := int32 (pad_l (pad_offset w) - key_amount mod_shift)\<rparr>\<rparr>"
| "keydown SDLK_f mod_shift w =
     w\<lparr>pad_offset :=
         (pad_offset w)\<lparr>pad_r := int32 (pad_r (pad_offset w) + key_amount mod_shift)\<rparr>\<rparr>"
| "keydown SDLK_g mod_shift w =
     w\<lparr>pad_offset :=
         (pad_offset w)\<lparr>pad_r := int32 (pad_r (pad_offset w) - key_amount mod_shift)\<rparr>\<rparr>"
| "keydown SDLK_other mod_shift w = w"

definition input_keydown :: "bool \<Rightarrow> Key \<Rightarrow> bool \<Rightarrow> WideNES \<Rightarrow> WideNES" where
  "input_keydown in_menu key mod_shift w = (if in_menu then w else keydown key mod_shift w)"

section \<open>WideNES: the end of a frame\<close>

subsection \<open>Heuristics, padding and scroll\<close>

text \<open>
  The body of \<^verbatim>\<open>if (this->h.ppuaddr.did_change)\<close>. The scanlines are \<^verbatim>\<open>uint\<close>: the
  comparisons are unsigned, \<^verbatim>\<open>239 - on_scanline\<close> wraps, and a store into an \<^verbatim>\<open>int\<close>
  reads the 32 bits as two's complement.
\<close>

definition ppuaddr_heuristic :: "WideNES \<Rightarrow> WideNES" where
  "ppuaddr_heuristic w =
     (if h_ppuaddr_changed_on_scanline w < 241 \<and> h_ppuaddr_changed_while_rendering w then
        (let w1 = w\<lparr>h_ppuaddr_active := True\<rparr>;
             w2 = w1\<lparr>h_ppuaddr_cut_scanline := h_ppuaddr_changed_on_scanline w1\<rparr>;
             w3 = (if h_ppuaddr_cut_scanline w2 < 120
                   then w2\<lparr>pad_guess := (pad_guess w2)\<lparr>pad_t := sint (h_ppuaddr_cut_scanline w2)\<rparr>\<rparr>
                   else w2\<lparr>pad_guess :=
                            (pad_guess w2)\<lparr>pad_b := sint (239 - h_mmc3_irq_on_scanline w2)\<rparr>\<rparr>)
         in w3\<lparr>curr_scroll := (curr_scroll w3)\<lparr>ns_y := ns_y (h_ppuaddr_new_scroll w3)\<rparr>\<rparr>)
      else w)"

text \<open>The body of \<^verbatim>\<open>if (this->h.mmc3_irq.happened)\<close>.\<close>

definition mmc3_heuristic :: "WideNES \<Rightarrow> WideNES" where
  "mmc3_heuristic w =
     (if h_mmc3_irq_on_scanline w < 120
      then w\<lparr>pad_guess := (pad_guess w)\<lparr>pad_t := sint (h_mmc3_irq_on_scanline w)\<rparr>\<rparr>
      else (w\<lparr>pad_guess := (pad_guess w)\<lparr>pad_b := sint (239 - h_mmc3_irq_on_scanline w)\<rparr>\<rparr>)
             \<lparr>curr_scroll := h_mmc3_irq_scroll_pre_irq w\<rparr>)"

text \<open>
  The heuristics of the handler, in the order of the source: the scroll of
  \<^verbatim>\<open>PPUSCROLL\<close>, the left column, the writes to \<^verbatim>\<open>PPUADDR\<close> (the flag is reset
  each frame), and the MMC3 interrupt (its flag is reset each frame as well).
\<close>

definition seed_scroll :: "WideNES \<Rightarrow> WideNES" where
  "seed_scroll w =
     (let w1 = w\<lparr>curr_scroll := (curr_scroll w)\<lparr>ns_x := ns_x (h_ppuscroll_curr w)\<rparr>\<rparr>
      in w1\<lparr>curr_scroll := (curr_scroll w1)\<lparr>ns_y := ns_y (h_ppuscroll_curr w1)\<rparr>\<rparr>)"

definition guess_left :: "PPUView \<Rightarrow> WideNES \<Rightarrow> WideNES" where
  "guess_left ppu w = w\<lparr>pad_guess := (pad_guess w)\<lparr>pad_l := (if ppu_mask_m ppu then 0 else 8)\<rparr>\<rparr>"

definition ppuaddr_step :: "WideNES \<Rightarrow> WideNES" where
  "ppuaddr_step w =
     (if h_ppuaddr_did_change w then ppuaddr_heuristic w else w)\<lparr>h_ppuaddr_did_change := False\<rparr>"

definition mmc3_step :: "WideNES \<Rightarrow> WideNES" where
  "mmc3_step w =
     (if h_mmc3_irq_happened w then mmc3_heuristic w else w)\<lparr>h_mmc3_irq_happened := False\<rparr>"

definition heuristics :: "PPUView \<Rightarrow> WideNES \<Rightarrow> WideNES" where
  "heuristics ppu w = mmc3_step (ppuaddr_step (guess_left ppu (seed_scroll w)))"

definition final_padding :: "WideNES \<Rightarrow> WideNES" where
  "final_padding w =
     w\<lparr>pad_total :=
         \<lparr>pad_l = max 0 (int32 (pad_l (pad_guess w) + pad_l (pad_offset w))),
          pad_r = max 0 (int32 (pad_r (pad_guess w) + pad_r (pad_offset w))),
          pad_t = max 0 (int32 (pad_t (pad_guess w) + pad_t (pad_offset w))),
          pad_b = max 0 (int32 (pad_b (pad_guess w) + pad_b (pad_offset w)))\<rparr>\<rparr>"

text \<open>
  The wrap correction \<^verbatim>\<open>if (::abs(d) > thresh) { if (d < 0) d += span; else d -= span; }\<close>,
  with \<open>span\<close> 256 for the horizontal delta and 240 for the vertical one.
\<close>

definition wrap_delta :: "int \<Rightarrow> int \<Rightarrow> int \<Rightarrow> int" where
  "wrap_delta d thresh span =
     (if \<bar>d\<bar> > thresh then (if d < 0 then d + span else d - span) else d)"

definition fuzz :: int where "fuzz = 10"

text \<open>
  The thresholds \<^verbatim>\<open>(256 - pad.total.l - pad.total.r) - fuzz\<close> and
  \<^verbatim>\<open>(240 - pad.total.t - pad.total.b) - fuzz\<close>, one \<^verbatim>\<open>int\<close> subtraction after the
  other.
\<close>

definition thresh_w :: "WideNES \<Rightarrow> int" where
  "thresh_w w = int32 (int32 (int32 (256 - pad_l (pad_total w)) - pad_r (pad_total w)) - fuzz)"

definition thresh_h :: "WideNES \<Rightarrow> int" where
  "thresh_h w = int32 (int32 (int32 (240 - pad_t (pad_total w)) - pad_b (pad_total w)) - fuzz)"

text \<open>
  The new scroll position. The two deltas are differences of \<^verbatim>\<open>u8\<close> values promoted
  to \<^verbatim>\<open>int\<close>, between \<open>- 255\<close> and 255, and the wrap correction leaves them between
  \<open>- 511\<close> and 511: these operations cannot overflow. The additions
  \<^verbatim>\<open>this->scroll.x += scroll_dx\<close> and \<^verbatim>\<open>this->scroll.y += scroll_dy\<close> are 32-bit
  additions.
\<close>

definition new_scroll :: "WideNES \<Rightarrow> WideNES" where
  "new_scroll w =
     (let scroll_dx = uint (ns_x (curr_scroll w)) - uint (ns_x (last_scroll w));
          scroll_dy = uint (ns_y (curr_scroll w)) - uint (ns_y (last_scroll w));
          scroll_dx1 = wrap_delta scroll_dx (thresh_w w) 256;
          scroll_dy1 = wrap_delta scroll_dy (thresh_h w) 240;
          scroll_dy2 = (if h_ppuaddr_active w
                        then (if \<bar>scroll_dy1\<bar> > sint (h_ppuaddr_cut_scanline w) then 0
                              else scroll_dy1)
                        else scroll_dy1);
          w1 = w\<lparr>scroll := \<lparr>sc_x = int32 (sc_x (scroll w) + scroll_dx1),
                            sc_y = int32 (sc_y (scroll w) + scroll_dy2),
                            sc_dx = scroll_dx1, sc_dy = scroll_dy2\<rparr>\<rparr>
      in w1\<lparr>last_scroll := \<lparr>ns_x = ns_x (curr_scroll w1), ns_y = ns_y (curr_scroll w1)\<rparr>\<rparr>)"

subsection \<open>Tile updates\<close>

definition new_Tile :: "int \<Rightarrow> int \<Rightarrow> Tile" where
  "new_Tile tx ty =
     \<lparr>tile_x = tx, tile_y = ty, tile_done = (\<lambda>_ _. False), tile_fill = (\<lambda>_ _. 0),
      tile_fb = (\<lambda>_. 0), tile_fb_new = (\<lambda>_. 0)\<rparr>"

text \<open>
  \<^verbatim>\<open>this->tiles[tx][ty]\<close>: \<^verbatim>\<open>operator[]\<close> of \<^verbatim>\<open>std::map\<close> inserts a
  value-initialised element when the key is missing, an empty column in the outer map and
  \<^verbatim>\<open>nullptr\<close> in the column. \<open>tiles_index\<close> returns the pointer found and the map
  after the insertions; \<open>tiles_store\<close> is the assignment \<^verbatim>\<open>this->tiles[tx][ty] = p\<close>.
\<close>

definition column :: "TileMap \<Rightarrow> int \<Rightarrow> (int \<rightharpoonup> Tile option)" where
  "column m tx = (case m tx of None \<Rightarrow> Map.empty | Some col \<Rightarrow> col)"

definition slot :: "(int \<rightharpoonup> Tile option) \<Rightarrow> int \<Rightarrow> Tile option" where
  "slot col ty = (case col ty of None \<Rightarrow> None | Some p \<Rightarrow> p)"

definition tiles_index :: "TileMap \<Rightarrow> int \<Rightarrow> int \<Rightarrow> Tile option \<times> TileMap" where
  "tiles_index m tx ty =
     (let col = column m tx; p = slot col ty in (p, m(tx \<mapsto> col(ty \<mapsto> p))))"

definition tiles_store :: "TileMap \<Rightarrow> int \<Rightarrow> int \<Rightarrow> Tile option \<Rightarrow> TileMap" where
  "tiles_store m tx ty p = m(tx \<mapsto> (column m tx)(ty \<mapsto> p))"

text \<open>
  The body of the two loops over the source pixels, in two parts: \<open>update_pixel\<close>
  finds the tile of the pixel, creating it when the pointer is null, and \<open>draw_pixel\<close>
  counts the pixel in its block and copies its four bytes. \<^verbatim>\<open>::floor(n / 256.0)\<close> of
  an \<^verbatim>\<open>int\<close> is the quotient rounded down, which is \<open>div\<close>. The sums
  \<^verbatim>\<open>this->scroll.x + sx\<close> and \<^verbatim>\<open>this->scroll.y + sy\<close> are 32-bit additions: within
  255 of \<^verbatim>\<open>INT_MAX\<close> the sum wraps and the tile coordinate is that of the wrapped sum.
  \<open>dx\<close>, \<open>dy\<close> and the pixel indices are \<^verbatim>\<open>uint\<close> in the source, converted from
  \<^verbatim>\<open>int\<close> expressions; \<open>dx\<close> is below 256 and \<open>dy\<close> below 240 whatever the scroll
  (\<open>pixel_in_range\<close> below).
\<close>

definition draw_pixel :: "(int \<Rightarrow> u8) \<Rightarrow> int \<Rightarrow> int \<Rightarrow> int \<Rightarrow> int \<Rightarrow> Tile \<Rightarrow> Tile" where
  "draw_pixel framebuffer sx sy dx dy tile =
     (let bx = dx div 16;
          blky = dy div 16;
          tile1 = tile\<lparr>tile_fill :=
                         (tile_fill tile)
                           (bx := (tile_fill tile bx)(blky := int32 (tile_fill tile bx blky + 1)))\<rparr>;
          spx_i = uint32 ((256 * 4 * sy) + (4 * sx));
          dpx_i = uint32 ((256 * 4 * dy) + (4 * dx))
      in tile1\<lparr>tile_fb_new :=
                  (tile_fb_new tile1)
                    (dpx_i + 0 := framebuffer (spx_i + 0),
                     dpx_i + 1 := framebuffer (spx_i + 1),
                     dpx_i + 2 := framebuffer (spx_i + 2),
                     dpx_i + 3 := framebuffer (spx_i + 3))\<rparr>)"

definition update_pixel :: "(int \<Rightarrow> u8) \<Rightarrow> int \<Rightarrow> int \<Rightarrow> WideNES \<Rightarrow> WideNES" where
  "update_pixel framebuffer sx sy w =
     (let tx = int32 (sc_x (scroll w) + sx) div 256;
          ty = int32 (sc_y (scroll w) + sy) div 240;
          (p, m1) = tiles_index (tiles w) tx ty;
          tile = (case p of None \<Rightarrow> new_Tile tx ty | Some t \<Rightarrow> t);
          dx = uint32 ((sc_x (scroll w) - tx * 256) + sx);
          dy = uint32 ((sc_y (scroll w) - ty * 240) + sy)
      in w\<lparr>tiles := tiles_store m1 tx ty (Some (draw_pixel framebuffer sx sy dx dy tile))\<rparr>)"

text \<open>
  \<^verbatim>\<open>for (int sx = pad.total.l; sx < 256 - pad.total.r; sx++)\<close> and the loop over
  \<open>sy\<close> inside it. The totals are those of \<open>final_padding\<close>, from 0 to
  \<^verbatim>\<open>INT_MAX\<close>: the bounds \<^verbatim>\<open>256 - pad.total.r\<close> and \<^verbatim>\<open>240 - pad.total.b\<close> cannot
  overflow, and the assertion in the loop holds.
\<close>

definition update_pixels :: "(int \<Rightarrow> u8) \<Rightarrow> WideNES \<Rightarrow> WideNES" where
  "update_pixels framebuffer w =
     fold (\<lambda>sx. fold (\<lambda>sy. update_pixel framebuffer sx sy)
                  [pad_t (pad_total w) .. 240 - pad_b (pad_total w) - 1])
          [pad_l (pad_total w) .. 256 - pad_r (pad_total w) - 1] w"

text \<open>
  The copy of one pixel of a captured block from \<^verbatim>\<open>fb_new\<close> into \<^verbatim>\<open>fb\<close>; the index
  is at most \<open>256 * 240 * 4\<close>.
\<close>

definition copy_pixel :: "int \<Rightarrow> int \<Rightarrow> int \<Rightarrow> int \<Rightarrow> Tile \<Rightarrow> Tile" where
  "copy_pixel bx blky x y tile =
     (let px_i = (256 * 4 * (blky * 16 + y)) + (4 * (bx * 16 + x))
      in tile\<lparr>tile_fb :=
                (tile_fb tile)
                  (px_i + 0 := tile_fb_new tile (px_i + 0),
                   px_i + 1 := tile_fb_new tile (px_i + 1),
                   px_i + 2 := tile_fb_new tile (px_i + 2),
                   px_i + 3 := tile_fb_new tile (px_i + 3))\<rparr>)"

definition save_block :: "int \<Rightarrow> int \<Rightarrow> Tile \<Rightarrow> Tile" where
  "save_block bx blky tile =
     (let tile1 =
            (if tile_fill tile bx blky = 256 then
               fold (\<lambda>x. fold (\<lambda>y. copy_pixel bx blky x y) [0 .. 15]) [0 .. 15]
                 (tile\<lparr>tile_done := (tile_done tile)(bx := (tile_done tile bx)(blky := True))\<rparr>)
             else tile)
      in tile1\<lparr>tile_fill := (tile_fill tile1)(bx := (tile_fill tile1 bx)(blky := 0))\<rparr>)"

definition save_blocks :: "Tile \<Rightarrow> Tile" where
  "save_blocks tile = fold (\<lambda>bx. fold (\<lambda>blky. save_block bx blky) [0 .. 14]) [0 .. 15] tile"

text \<open>
  One iteration of \<^verbatim>\<open>for (int dx : {0, 1}) for (int dy : {0, 1})\<close> in step 2: the
  lookup inserts the slot, and a null pointer is skipped.
\<close>

definition save_tile :: "int \<Rightarrow> int \<Rightarrow> TileMap \<Rightarrow> TileMap" where
  "save_tile cx cy m =
     (let (p, m1) = tiles_index m cx cy
      in case p of None \<Rightarrow> m1 | Some tile \<Rightarrow> tiles_store m1 cx cy (Some (save_blocks tile)))"

text \<open>The same iteration in step 3, which uploads the textures and changes no tile.\<close>

definition upload_tile :: "int \<Rightarrow> int \<Rightarrow> TileMap \<Rightarrow> TileMap" where
  "upload_tile cx cy m = snd (tiles_index m cx cy)"

definition over_four :: "(int \<Rightarrow> int \<Rightarrow> TileMap \<Rightarrow> TileMap) \<Rightarrow> int \<Rightarrow> int \<Rightarrow> TileMap \<Rightarrow> TileMap" where
  "over_four f tx ty m = fold (\<lambda>dx. fold (\<lambda>dy. f (tx + dx) (ty + dy)) [0, 1]) [0, 1] m"

text \<open>
  Steps 2 and 3 around \<^verbatim>\<open>tx = ::floor(this->scroll.x / 256.0)\<close> and
  \<^verbatim>\<open>ty = ::floor(this->scroll.y / 240.0)\<close>, which are at most \<open>2 ^ 23\<close> in absolute
  value: \<^verbatim>\<open>tx + dx\<close> and \<^verbatim>\<open>ty + dy\<close> cannot overflow.
\<close>

definition save_tiles :: "WideNES \<Rightarrow> WideNES" where
  "save_tiles w =
     (let tx = sc_x (scroll w) div 256;
          ty = sc_y (scroll w) div 240
      in w\<lparr>tiles := over_four upload_tile tx ty (over_four save_tile tx ty (tiles w))\<rparr>)"

subsection \<open>The handler\<close>

definition update_scroll :: "PPUView \<Rightarrow> WideNES \<Rightarrow> WideNES" where
  "update_scroll ppu w = new_scroll (final_padding (heuristics ppu w))"

definition update_tiles :: "PPUView \<Rightarrow> WideNES \<Rightarrow> WideNES" where
  "update_tiles ppu w = save_tiles (update_pixels (ppu_framebuff_bgr ppu) w)"

definition ppu_frame_end_handler :: "PPUView \<Rightarrow> WideNES \<Rightarrow> WideNES" where
  "ppu_frame_end_handler ppu w = update_tiles ppu (update_scroll ppu w)"

section \<open>WideNES: runs\<close>

text \<open>The callbacks and key presses that reach the engine, and a run of them.\<close>

datatype Event =
    PpuWriteEnd PPUView u16 u8
  | Mmc3Irq u8 bool
  | PpuFrameEnd PPUView
  | KeyDown bool Key bool

fun handle :: "Event \<Rightarrow> WideNES \<Rightarrow> WideNES" where
  "handle (PpuWriteEnd ppu addr val) w = ppu_write_end_handler ppu addr val w"
| "handle (Mmc3Irq irq_latch irq_enabled) w = mmc3_irq_handler irq_latch irq_enabled w"
| "handle (PpuFrameEnd ppu) w = ppu_frame_end_handler ppu w"
| "handle (KeyDown in_menu key mod_shift) w = input_keydown in_menu key mod_shift w"

definition run :: "Event list \<Rightarrow> WideNES \<Rightarrow> WideNES" where
  "run evs w = fold handle evs w"

section \<open>CPU: notions of the claims and concrete inputs\<close>

text \<open>The register file of the data model: PC, S, A, X, Y and P.\<close>

definition regfile :: "CPU \<Rightarrow> u16 \<times> u8 \<times> u8 \<times> u8 \<times> u8 \<times> u8" where
  "regfile c = (reg_pc c, reg_s c, reg_a c, reg_x c, reg_y c, reg_p c)"

text \<open>
  The condition of each of the eight branch instructions, as its \<^verbatim>\<open>case\<close> passes it to
  \<^verbatim>\<open>branch\<close>; no other instruction branches.
\<close>

fun branch_taken :: "Instr \<Rightarrow> CPU \<Rightarrow> bool" where
  "branch_taken BCS c = get_flag flag_c c"
| "branch_taken BCC c = (\<not> get_flag flag_c c)"
| "branch_taken BEQ c = get_flag flag_z c"
| "branch_taken BNE c = (\<not> get_flag flag_z c)"
| "branch_taken BVS c = get_flag flag_v c"
| "branch_taken BVC c = (\<not> get_flag flag_v c)"
| "branch_taken BPL c = (\<not> get_flag flag_n c)"
| "branch_taken BMI c = get_flag flag_n c"
| "branch_taken _ c = False"

text \<open>
  The target of the branch instruction at \<open>reg_pc c\<close>: the program counter after the
  opcode and the operand, plus the operand as a signed byte.
\<close>

definition branch_target :: "CPU \<Rightarrow> u16" where
  "branch_target c = reg_pc c + 2 + scast (mem c (reg_pc c + 1))"

text \<open>
  An opcode table for the concrete inputs below. It holds the 6502 encodings of five
  instructions; every other byte resolves to \<open>(INVALID, INVALID, 0, false)\<close>.
\<close>

definition mk_opcode :: "u8 \<Rightarrow> Instr \<Rightarrow> AddrM \<Rightarrow> u8 \<Rightarrow> bool \<Rightarrow> Opcode" where
  "mk_opcode b i m n pg = \<lparr>raw = b, instr = i, addrm = m, op_cycles = n, check_pg_cross = pg\<rparr>"

definition example_Opcodes :: OpcodeTable where
  "example_Opcodes op =
     (if op = 0xEA then mk_opcode op NOP impl 2 False
      else if op = 0xD0 then mk_opcode op BNE rel 2 False
      else if op = 0x6C then mk_opcode op JMP ind_m 5 False
      else if op = 0x08 then mk_opcode op PHP impl 3 False
      else if op = 0x28 then mk_opcode op PLP impl 4 False
      else mk_opcode op INVALID_instr INVALID 0 False)"

definition no_interrupts :: InterruptLines where
  "no_interrupts = \<lparr>pending_reset = False, pending_nmi = False, pending_irq = False\<rparr>"

text \<open>A bus that holds 0 everywhere.\<close>

definition blank_memory :: Memory where
  "blank_memory = (\<lambda>_. 0)"

text \<open>A CPU just after power-up, with the program counter and the bus given.\<close>

definition cpu_at :: "u16 \<Rightarrow> Memory \<Rightarrow> CPU" where
  "cpu_at pc0 m =
     \<lparr>reg_pc = pc0, reg_s = 0xFD, reg_a = 0, reg_x = 0, reg_y = 0, reg_p = 0x34,
      cycles = 0, state = Running, mem = m, interrupt = no_interrupts\<rparr>"

text \<open>
  An IRQ is pending, \<open>P.I\<close> is clear, and the vector at \<open>$FFFE\<close> holds \<open>$9000\<close>.
\<close>

definition irq_cpu :: CPU where
  "irq_cpu =
     (cpu_at 0x8000 (blank_memory(0xFFFE := 0x00, 0xFFFF := 0x90)))
       \<lparr>reg_p := 0x20, interrupt := no_interrupts\<lparr>pending_irq := True\<rparr>\<rparr>"

text \<open>A halted CPU whose next opcode is \<open>NOP\<close>.\<close>

definition halted_cpu :: CPU where
  "halted_cpu = (cpu_at 0x8000 (blank_memory(0x8000 := 0xEA)))\<lparr>state := Halted\<rparr>"

text \<open>
  \<open>BNE\<close> with the zero flag clear, once to \<open>$8012\<close> in the page of \<open>$8002\<close> and
  once to \<open>$7F82\<close> in the page before.
\<close>

definition bne_same :: CPU where
  "bne_same = cpu_at 0x8000 (blank_memory(0x8000 := 0xD0, 0x8001 := 0x10))"

definition bne_cross :: CPU where
  "bne_cross = cpu_at 0x8000 (blank_memory(0x8000 := 0xD0, 0x8001 := 0x80))"

text \<open>The scenario of the indirect jump: \<open>6C FF 10\<close>, \<open>$34\<close> at \<open>$10FF\<close>, \<open>$12\<close> at \<open>$1000\<close>.\<close>

definition jmp_cpu :: CPU where
  "jmp_cpu =
     cpu_at 0x8000
       (blank_memory(0x8000 := 0x6C, 0x8001 := 0xFF, 0x8002 := 0x10, 0x10FF := 0x34, 0x1000 := 0x12))"

text \<open>\<open>PHP\<close> then \<open>PLP\<close>, with a status byte whose bit 5 is clear.\<close>

definition php_cpu :: CPU where
  "php_cpu = (cpu_at 0x8000 (blank_memory(0x8000 := 0x08, 0x8001 := 0x28)))\<lparr>reg_p := 0xC3\<rparr>"

text \<open>Two CPUs that differ in the program counter only.\<close>

definition cpu_at_8000 :: CPU where
  "cpu_at_8000 = cpu_at 0x8000 blank_memory"

definition cpu_at_C000 :: CPU where
  "cpu_at_C000 = cpu_at 0xC000 blank_memory"

section \<open>WideNES: notions of the claims and concrete inputs\<close>

text \<open>
  The raw scroll deltas \<^verbatim>\<open>curr_scroll.x - last_scroll.x\<close> and
  \<^verbatim>\<open>curr_scroll.y - last_scroll.y\<close>, before the wrap correction.
\<close>

definition raw_scroll_dx :: "WideNES \<Rightarrow> int" where
  "raw_scroll_dx w = uint (ns_x (curr_scroll w)) - uint (ns_x (last_scroll w))"

definition raw_scroll_dy :: "WideNES \<Rightarrow> int" where
  "raw_scroll_dy w = uint (ns_y (curr_scroll w)) - uint (ns_y (last_scroll w))"

text \<open>
  The vertical delta after the wrap correction, which is the value of \<^verbatim>\<open>scroll_dy\<close> when
  the handler reaches \<^verbatim>\<open>if (this->h.ppuaddr.active)\<close>.
\<close>

definition corrected_scroll_dy :: "WideNES \<Rightarrow> int" where
  "corrected_scroll_dy w = wrap_delta (raw_scroll_dy w) (thresh_h w) 240"

text \<open>
  What the map holds at a coordinate: \<open>tile_at\<close> is the tile there (\<open>None\<close> when
  the map has no entry or a null pointer), \<open>has_tile\<close> says that there is one, and
  \<open>has_entry\<close> says that the map has an entry for the coordinate, null or not.
\<close>

definition tile_at :: "TileMap \<Rightarrow> int \<Rightarrow> int \<Rightarrow> Tile option" where
  "tile_at m tx ty = slot (column m tx) ty"

definition has_tile :: "TileMap \<Rightarrow> int \<Rightarrow> int \<Rightarrow> bool" where
  "has_tile m tx ty = (tile_at m tx ty \<noteq> None)"

definition has_entry :: "TileMap \<Rightarrow> int \<Rightarrow> int \<Rightarrow> bool" where
  "has_entry m tx ty = (case m tx of None \<Rightarrow> False | Some col \<Rightarrow> col ty \<noteq> None)"

text \<open>
  The tile that the source pixel \<open>(sx, sy)\<close> is written into (\<open>tx\<close> and \<open>ty\<close> of
  \<open>update_pixel\<close>), and the tiles that a frame writes a pixel into: those of the
  source pixels inside the padding.
\<close>

definition coord :: "TotalScroll \<Rightarrow> int \<Rightarrow> int \<Rightarrow> int \<times> int" where
  "coord sc sx sy = (int32 (sc_x sc + sx) div 256, int32 (sc_y sc + sy) div 240)"

definition pixel_coords :: "WideNES \<Rightarrow> (int \<times> int) set" where
  "pixel_coords w =
     {(cx, cy). \<exists>sx\<in>{pad_l (pad_total w) .. 256 - pad_r (pad_total w) - 1}.
                \<exists>sy\<in>{pad_t (pad_total w) .. 240 - pad_b (pad_total w) - 1}.
                  coord (scroll w) sx sy = (cx, cy)}"

text \<open>
  No sum \<^verbatim>\<open>this->scroll.x + sx\<close> or \<^verbatim>\<open>this->scroll.y + sy\<close> of the pixel loops
  exceeds \<^verbatim>\<open>INT_MAX\<close>; and the same of every frame end of a run, the engine being in
  state \<open>w\<close> before the run.
\<close>

definition sums_fit :: "WideNES \<Rightarrow> bool" where
  "sums_fit w =
     (\<forall>sx\<in>{pad_l (pad_total w) .. 256 - pad_r (pad_total w) - 1}.
      \<forall>sy\<in>{pad_t (pad_total w) .. 240 - pad_b (pad_total w) - 1}.
        sc_x (scroll w) + sx \<le> 2147483647 \<and> sc_y (scroll w) + sy \<le> 2147483647)"

fun frame_fits :: "Event \<Rightarrow> WideNES \<Rightarrow> bool" where
  "frame_fits (PpuFrameEnd ppu) w = sums_fit (update_scroll ppu w)"
| "frame_fits (PpuWriteEnd ppu addr val) w = True"
| "frame_fits (Mmc3Irq irq_latch irq_enabled) w = True"
| "frame_fits (KeyDown in_menu key mod_shift) w = True"

fun frames_fit :: "Event list \<Rightarrow> WideNES \<Rightarrow> bool" where
  "frames_fit [] w = True"
| "frames_fit (e # es) w = (frame_fits e w \<and> frames_fit es (handle e w))"

text \<open>The four coordinates \<open>(tx + {0, 1}, ty + {0, 1})\<close> that steps 2 and 3 visit.\<close>

definition in_four :: "int \<Rightarrow> int \<Rightarrow> int \<Rightarrow> int \<Rightarrow> bool" where
  "in_four tx ty cx cy = ((cx = tx \<or> cx = tx + 1) \<and> (cy = ty \<or> cy = ty + 1))"

text \<open>
  Every block of a tile has fill 0; and the same of the tile at a coordinate, when there
  is one.
\<close>

definition fill_clear :: "Tile \<Rightarrow> bool" where
  "fill_clear tile = (\<forall>bx\<in>{0..15}. \<forall>blky\<in>{0..14}. tile_fill tile bx blky = 0)"

definition fill_clear_at :: "TileMap \<Rightarrow> int \<Rightarrow> int \<Rightarrow> bool" where
  "fill_clear_at m cx cy = (case tile_at m cx cy of None \<Rightarrow> True | Some tile \<Rightarrow> fill_clear tile)"

text \<open>The fill of block \<open>(bx, blky)\<close> of the tile at a coordinate, when there is one.\<close>

definition fill_at :: "TileMap \<Rightarrow> int \<Rightarrow> int \<Rightarrow> int \<Rightarrow> int \<Rightarrow> int option" where
  "fill_at m cx cy bx blky =
     (case tile_at m cx cy of None \<Rightarrow> None | Some tile \<Rightarrow> Some (tile_fill tile bx blky))"

text \<open>
  The tiles into which a run has written a pixel since the tiles were last cleared: a
  frame adds the tiles of its pixels, the key \<open>k\<close> outside the menu forgets them all.
\<close>

fun written_step :: "Event \<Rightarrow> WideNES \<Rightarrow> (int \<times> int) set \<Rightarrow> (int \<times> int) set" where
  "written_step (PpuFrameEnd ppu) w W = W \<union> pixel_coords (update_scroll ppu w)"
| "written_step (KeyDown in_menu key mod_shift) w W =
     (if \<not> in_menu \<and> key = SDLK_k then {} else W)"
| "written_step (PpuWriteEnd ppu addr val) w W = W"
| "written_step (Mmc3Irq irq_latch irq_enabled) w W = W"

fun written :: "Event list \<Rightarrow> WideNES \<Rightarrow> (int \<times> int) set \<Rightarrow> (int \<times> int) set" where
  "written [] w W = W"
| "written (e # es) w W = written es (handle e w) (written_step e w W)"

fun is_clear :: "Event \<Rightarrow> bool" where
  "is_clear (KeyDown in_menu key mod_shift) = (\<not> in_menu \<and> key = SDLK_k)"
| "is_clear (PpuFrameEnd ppu) = False"
| "is_clear (PpuWriteEnd ppu addr val) = False"
| "is_clear (Mmc3Irq irq_latch irq_enabled) = False"

text \<open>
  Concrete inputs. \<open>ppu0\<close> is the PPU at the end of a frame, with the left column
  shown and a black background; \<open>midframe_ppu\<close> is the same PPU on scanline 100.
\<close>

definition ppu0 :: PPUView where
  "ppu0 = \<lparr>ppu_scanline = 240, ppu_scroll_latch = False, ppu_is_rendering = True,
           ppu_mask_m = True, ppu_coarse_x = 0, ppu_coarse_y = 0,
           ppu_framebuff_bgr = (\<lambda>_. 0)\<rparr>"


text \<open>The engine after the game wrote 246 and then 230 to \<^verbatim>\<open>PPUSCROLL\<close>.\<close>

definition scroll_246_230 :: WideNES where
  "scroll_246_230 =
     run [PpuWriteEnd (ppu0\<lparr>ppu_scroll_latch := True\<rparr>) PPUSCROLL 246,
          PpuWriteEnd ppu0 PPUSCROLL 230] wn_init"

text \<open>The engine after the game wrote 255 as the vertical scroll.\<close>

definition scroll_y_255 :: WideNES where
  "scroll_y_255 = run [PpuWriteEnd ppu0 PPUSCROLL 255] wn_init"

text \<open>
  The engine with the camera 100 pixels short of \<^verbatim>\<open>INT_MAX\<close> to the right, and the user
  padding cutting the frame down to its last ten columns and rows.
\<close>

definition near_int_max :: WideNES where
  "near_int_max =
     wn_init\<lparr>pad_offset := \<lparr>pad_l = 246, pad_r = 0, pad_t = 230, pad_b = 0\<rparr>,
             scroll := \<lparr>sc_x = 2147483547, sc_y = 0, sc_dx = 0, sc_dy = 0\<rparr>\<rparr>"

text \<open>
  A run that pans the camera to the right from the initial state. The user first pads the
  frame down to the columns from 237 and the rows from 230 (the key \<open>s\<close> 29 times and
  five times with shift, the key \<open>e\<close> 28 times and six times with shift); then in every
  frame the game adds 9 to the horizontal scroll register. \<open>panned n\<close> is what the run
  has made of the engine after \<open>n\<close> frames, the tiles apart.
\<close>

definition latch_ppu :: PPUView where
  "latch_ppu = ppu0\<lparr>ppu_scroll_latch := True\<rparr>"

definition pad_keys :: "Event list" where
  "pad_keys =
     replicate 29 (KeyDown False SDLK_s False) @ replicate 5 (KeyDown False SDLK_s True) @
     replicate 28 (KeyDown False SDLK_e False) @ replicate 6 (KeyDown False SDLK_e True)"

fun pan_right :: "nat \<Rightarrow> Event list" where
  "pan_right 0 = []"
| "pan_right (Suc n) =
     pan_right n @ [PpuWriteEnd latch_ppu PPUSCROLL (of_nat (9 * Suc n)), PpuFrameEnd ppu0]"

definition panned :: "nat \<Rightarrow> WideNES \<Rightarrow> bool" where
  "panned n w =
     (sc_x (scroll w) = 9 * int n \<and> sc_y (scroll w) = 0 \<and>
      last_scroll w = \<lparr>ns_x = of_nat (9 * n), ns_y = 0\<rparr> \<and>
      h_ppuscroll_curr w = \<lparr>ns_x = of_nat (9 * n), ns_y = 0\<rparr> \<and>
      pad_offset w = \<lparr>pad_l = 237, pad_r = 0, pad_t = 230, pad_b = 0\<rparr> \<and>
      pad_r (pad_guess w) = 0 \<and> pad_t (pad_guess w) = 0 \<and> pad_b (pad_guess w) = 0 \<and>
      \<not> h_ppuaddr_did_change w \<and> \<not> h_mmc3_irq_happened w \<and> \<not> h_ppuaddr_active w)"


section \<open>CPU: lemmas\<close>

lemmas cpu_basic_defs =
  set_flag_def get_flag_def carry_def set_zn_def nth_bit_def s_push_def s_push16_def
  s_pull_def s_pull16_def mem_write_def branch_def compare_def adc_def sbc_def rmw_def
  lsr_val_def asl_val_def ror_val_def rol_val_def arg8_def arg16_def Let_def

lemmas step_defs =
  step_def get_operand_addr_def pg_cross_cycles_def service_interrupt_def
  interrupt_get_def elapsed_def read16_def read16_zpg_def did_pg_cross_def
  flag_c_def flag_z_def flag_i_def flag_d_def flag_b_def flag_u_def flag_v_def flag_n_def

lemmas example_defs =
  example_Opcodes_def mk_opcode_def no_interrupts_def cpu_at_def blank_memory_def

subsection \<open>No operation reads the state\<close>

lemma service_interrupt_state:
  "service_interrupt i b (c\<lparr>state := s\<rparr>) = (service_interrupt i b c)\<lparr>state := s\<rparr>"
  by (cases i) (simp_all add: service_interrupt_def cpu_basic_defs)

lemma operand_addr_state:
  "operand_addr m (c\<lparr>state := s\<rparr>) =
     (fst (operand_addr m c), (snd (operand_addr m c))\<lparr>state := s\<rparr>)"
  by (cases m) (simp_all add: cpu_basic_defs)

lemma get_operand_addr_state:
  "get_operand_addr opcode (c\<lparr>state := s\<rparr>) =
     (fst (get_operand_addr opcode c), (snd (get_operand_addr opcode c))\<lparr>state := s\<rparr>)"
  by (cases "operand_addr (addrm opcode) c")
     (simp add: get_operand_addr_def operand_addr_state pg_cross_cycles_def Let_def)

lemma get_operand_addr_state_pc:
  "get_operand_addr opcode (c\<lparr>state := s, reg_pc := pc'\<rparr>) =
     (fst (get_operand_addr opcode (c\<lparr>reg_pc := pc'\<rparr>)),
      (snd (get_operand_addr opcode (c\<lparr>reg_pc := pc'\<rparr>)))\<lparr>state := s\<rparr>)"
proof -
  have "c\<lparr>state := s, reg_pc := pc'\<rparr> = c\<lparr>reg_pc := pc', state := s\<rparr>"
    by (rule CPU.equality) simp_all
  then show ?thesis
    using get_operand_addr_state [where c = "c\<lparr>reg_pc := pc'\<rparr>" and s = s and opcode = opcode]
    by (simp only:)
qed

lemma exec_instr_state:
  "exec_instr i opcode a (c\<lparr>state := Halted\<rparr>) = (exec_instr i opcode a c)\<lparr>state := Halted\<rparr>"
  by (cases i) (simp_all add: cpu_basic_defs service_interrupt_state)

subsection \<open>Words\<close>

lemma elapsed_eq: "elapsed y (ucast x) = ucast (y - x)"
  unfolding elapsed_def
  apply transfer
  apply (simp add: take_bit_eq_mod mod_mod_cancel)
  apply (simp add: mod_simps)
  done

lemma unat_small_cycles:
  fixes k :: u8 and j :: u64
  assumes "unat j < 256"
  shows "unat (ucast (j + ucast k) :: uint) = unat k + unat j"
proof -
  have k: "unat k < 256" using unsigned_less [of k, where ?'a = nat] by simp
  have a: "unat (ucast k :: u64) = unat k"
    using k by (simp add: unsigned_ucast_eq take_bit_nat_eq_self)
  have b: "unat (j + ucast k) = unat k + unat j"
    using k assms by (simp add: unat_word_ariths a)
  have c: "unat (ucast (j + ucast k) :: uint) = take_bit 32 (unat (j + ucast k))"
    by (simp add: unsigned_ucast_eq)
  show ?thesis using k assms by (simp add: b c take_bit_nat_eq_self)
qed

lemma int_low_byte_wrap:
  fixes k :: int
  assumes "take_bit 8 k = 255"
  shows "take_bit 8 (k + 1) = 0"
proof -
  have "take_bit 8 (k + 1) = take_bit 8 (take_bit 8 k + take_bit 8 1)"
    by (simp only: take_bit_add)
  also have "\<dots> = 0" by (simp only: assms) simp
  finally show ?thesis .
qed

lemma low_byte_wrap:
  fixes ptr :: u16
  assumes "ptr AND 0x00FF = 0x00FF"
  shows "(ptr + 1) AND 0x00FF = 0"
proof -
  have m: "(0x00FF :: u16) = mask 8" by (simp add: mask_eq_exp_minus_1)
  have h: "take_bit 8 ptr = (0xFF :: u16)"
    using assms by (simp add: m take_bit_eq_mask)
  have "uint (take_bit 8 ptr) = uint (0xFF :: u16)" by (simp only: h)
  then have "take_bit 8 (uint ptr) = 255"
    by (simp add: unsigned_take_bit_eq)
  then have "take_bit 8 (uint ptr + 1) = 0" by (rule int_low_byte_wrap)
  moreover have "uint (take_bit 8 (ptr + 1)) = take_bit 8 (uint (ptr + 1))"
    by (simp add: unsigned_take_bit_eq)
  moreover have "uint (ptr + 1) = (uint ptr + 1) mod 2 ^ 16"
    by (simp add: uint_word_ariths)
  moreover have "take_bit 8 ((uint ptr + 1) mod 2 ^ 16) = take_bit 8 (uint ptr + 1)"
    by (simp add: take_bit_eq_mod mod_mod_cancel)
  ultimately have "uint (take_bit 8 (ptr + 1)) = 0"
    by (simp only:)
  then have "take_bit 8 (ptr + 1) = 0"
    by (simp add: uint_0_iff)
  then show ?thesis by (simp add: m take_bit_eq_mask)
qed

subsection \<open>Interrupts and branches\<close>

lemma service_interrupt_plain_irq_pc:
  "reg_pc (service_interrupt IRQ False c) = reg_pc c"
  by (simp add: service_interrupt_def set_flag_def get_flag_def flag_i_def s_push_def
      s_push16_def Let_def bit_simps)

lemma service_interrupt_brk_pc:
  "reg_pc (service_interrupt IRQ True c) =
     read16 (mem (s_push (reg_p (set_flag flag_i True c))
                    (s_push16 (reg_pc c) (set_flag flag_i True c)))) 0xFFFE"
  by (simp add: service_interrupt_def set_flag_def Let_def)

lemma exec_branch_taken:
  "branch_taken i c \<Longrightarrow> exec_instr i opcode addr c = branch True addr c"
  by (cases i) simp_all

lemma branch_taken_pc: "branch_taken i (c\<lparr>reg_pc := v\<rparr>) = branch_taken i c"
  by (cases i) (simp_all add: get_flag_def)

lemma step_taken_branch:
  assumes "interrupt_get (interrupt c) = NONE"
    and "addrm (Opcodes (mem c (reg_pc c))) = rel"
    and "branch_taken (instr (Opcodes (mem c (reg_pc c)))) c"
  shows "fst (step Opcodes c) =
           ucast ((if (reg_pc c + 2) AND 0xFF00 \<noteq> branch_target c AND 0xFF00 then 3 else 1)
                  + ucast (op_cycles (Opcodes (mem c (reg_pc c)))) :: u64)"
    and "reg_pc (snd (step Opcodes c)) = branch_target c"
proof -
  let ?op = "Opcodes (mem c (reg_pc c))"
  let ?c2 = "c\<lparr>reg_pc := reg_pc c + 2\<rparr>"
  have g: "get_operand_addr ?op (c\<lparr>reg_pc := reg_pc c + 1\<rparr>) = (reg_pc c + 1, ?c2)"
    using assms(2) by (simp add: get_operand_addr_def pg_cross_cycles_def)
  have e: "exec_instr (instr ?op) ?op (reg_pc c + 1) ?c2 = branch True (reg_pc c + 1) ?c2"
    using assms(3) by (intro exec_branch_taken) (simp add: branch_taken_pc)
  have s: "step Opcodes c =
      (let c3 = branch True (reg_pc c + 1) ?c2;
           c4 = c3\<lparr>cycles := cycles c3 + ucast (op_cycles ?op)\<rparr>
       in (elapsed (cycles c4) (ucast (cycles c)), c4))"
    using assms(1) by (simp add: step_def Let_def g e)
  show "reg_pc (snd (step Opcodes c)) = branch_target c"
    by (simp add: s branch_def branch_target_def Let_def)
  show "fst (step Opcodes c) =
           ucast ((if (reg_pc c + 2) AND 0xFF00 \<noteq> branch_target c AND 0xFF00 then 3 else 1)
                  + ucast (op_cycles (Opcodes (mem c (reg_pc c)))) :: u64)"
    by (simp add: s branch_def branch_target_def Let_def elapsed_eq)
qed

section \<open>CPU: the claims\<close>

text \<open>
  C1. The claim: a plain IRQ jumps to the vector at \<open>$FFFE\<close> if and only if \<open>P.I\<close>
  was clear before servicing began. \<^verbatim>\<open>service_interrupt\<close> sets \<open>P.I\<close> before it tests
  \<^verbatim>\<open>brk || !this->reg.p.i\<close>, so the test fails for every plain IRQ
  (\<open>service_interrupt_plain_irq_pc\<close>). At the input \<open>irq_cpu\<close>, where \<open>P.I\<close> is clear,
  an IRQ is pending and the vector holds \<open>$9000\<close>, \<^verbatim>\<open>step\<close> takes 7 cycles, pushes
  \<open>$80\<close>, \<open>$00\<close> and the status \<open>$24\<close>, clears the request, and leaves the program
  counter at \<open>$8000\<close>.
\<close>

theorem plain_irq_with_i_clear_does_not_jump:
  "\<not> get_flag flag_i irq_cpu \<and> interrupt_get (interrupt irq_cpu) = IRQ \<and>
   reg_pc irq_cpu = 0x8000 \<and> read16 (mem irq_cpu) 0xFFFE = 0x9000 \<and>
   fst (step example_Opcodes irq_cpu) = 7 \<and>
   reg_pc (snd (step example_Opcodes irq_cpu)) = 0x8000 \<and>
   reg_s (snd (step example_Opcodes irq_cpu)) = 0xFA \<and>
   mem (snd (step example_Opcodes irq_cpu)) 0x01FD = 0x80 \<and>
   mem (snd (step example_Opcodes irq_cpu)) 0x01FC = 0x00 \<and>
   mem (snd (step example_Opcodes irq_cpu)) 0x01FB = 0x24 \<and>
   interrupt_get (interrupt (snd (step example_Opcodes irq_cpu))) = NONE"
  by (simp add: irq_cpu_def example_defs step_defs cpu_basic_defs)

text \<open>
  C2, as the claim states it, fails: \<^verbatim>\<open>step\<close> on a halted CPU whose next opcode is
  \<open>NOP\<close> returns 2 and advances the program counter.
\<close>

theorem halted_step_counterexample:
  "state halted_cpu = Halted \<and> fst (step example_Opcodes halted_cpu) = 2 \<and>
   reg_pc halted_cpu = 0x8000 \<and> reg_pc (snd (step example_Opcodes halted_cpu)) = 0x8001"
  by (simp add: halted_cpu_def example_defs step_defs cpu_basic_defs)

text \<open>
  C2, amended. \<^verbatim>\<open>step\<close> never reads the state: on a halted CPU it returns the cycle
  count and makes the changes to registers, memory and interrupt lines that it makes on
  the same CPU in any other state, and the state stays \<open>Halted\<close>.
\<close>

theorem step_ignores_state:
  "step Opcodes (c\<lparr>state := Halted\<rparr>) =
     (fst (step Opcodes c), (snd (step Opcodes c))\<lparr>state := Halted\<rparr>)"
  by (cases "get_operand_addr (Opcodes (mem c (reg_pc c))) (c\<lparr>reg_pc := reg_pc c + 1\<rparr>)")
     (simp add: step_def Let_def service_interrupt_state exec_instr_state
        get_operand_addr_state_pc)

text \<open>
  C3, as the claim states it, fails: the taken \<open>BNE\<close> of \<open>bne_same\<close> costs 3 cycles
  and the one of \<open>bne_cross\<close>, whose target is in another page, costs 5.
\<close>

theorem branch_cross_page_counterexample:
  "fst (step example_Opcodes bne_same) = 3 \<and>
   reg_pc (snd (step example_Opcodes bne_same)) = 0x8012 \<and>
   fst (step example_Opcodes bne_cross) = 5 \<and>
   reg_pc (snd (step example_Opcodes bne_cross)) = 0x7F82 \<and>
   unat (fst (step example_Opcodes bne_cross)) \<noteq> unat (fst (step example_Opcodes bne_same)) + 1"
  by (simp add: bne_same_def bne_cross_def example_defs step_defs cpu_basic_defs)

text \<open>
  C3, amended. Of two taken branches with the same opcode descriptor, the one whose
  target has another high byte than the program counter after the operand costs exactly
  2 cycles more than the one whose target has the same high byte.
\<close>

theorem branch_cross_page_costs_two:
  assumes "interrupt_get (interrupt c1) = NONE" and "interrupt_get (interrupt c2) = NONE"
    and "Opcodes (mem c1 (reg_pc c1)) = opcode" and "Opcodes (mem c2 (reg_pc c2)) = opcode"
    and "addrm opcode = rel"
    and "branch_taken (instr opcode) c1" and "branch_taken (instr opcode) c2"
    and "(reg_pc c1 + 2) AND 0xFF00 \<noteq> branch_target c1 AND 0xFF00"
    and "(reg_pc c2 + 2) AND 0xFF00 = branch_target c2 AND 0xFF00"
  shows "unat (fst (step Opcodes c1)) = unat (fst (step Opcodes c2)) + 2
         \<and> reg_pc (snd (step Opcodes c1)) = branch_target c1
         \<and> reg_pc (snd (step Opcodes c2)) = branch_target c2"
proof -
  have a: "fst (step Opcodes c1) = ucast (3 + ucast (op_cycles opcode) :: u64)"
    using step_taken_branch(1) [of c1 Opcodes] assms by simp
  have b: "fst (step Opcodes c2) = ucast (1 + ucast (op_cycles opcode) :: u64)"
    using step_taken_branch(1) [of c2 Opcodes] assms by simp
  have "unat (fst (step Opcodes c1)) = unat (op_cycles opcode) + 3"
    unfolding a using unat_small_cycles [of 3 "op_cycles opcode"] by simp
  moreover have "unat (fst (step Opcodes c2)) = unat (op_cycles opcode) + 1"
    unfolding b using unat_small_cycles [of 1 "op_cycles opcode"] by simp
  ultimately show ?thesis
    using step_taken_branch(2) [of c1 Opcodes] step_taken_branch(2) [of c2 Opcodes] assms
    by simp
qed

theorem branch_cross_page_costs_two_witness:
  "unat (fst (step example_Opcodes bne_cross)) = unat (fst (step example_Opcodes bne_same)) + 2"
  using branch_cross_page_costs_two
          [of bne_cross bne_same example_Opcodes "mk_opcode 0xD0 BNE rel 2 False"]
  by (simp add: bne_same_def bne_cross_def example_defs interrupt_get_def branch_target_def
      get_flag_def flag_z_def)

text \<open>
  C4. An indirect \<open>JMP\<close> whose pointer \<open>ptr\<close> has the low byte \<open>$FF\<close> takes the low
  byte of its target from \<open>ptr\<close> and the high byte from the start of the same page,
  \<open>ptr AND $FF00\<close>.
\<close>

theorem jmp_indirect_page_wrap:
  assumes "interrupt_get (interrupt c) = NONE"
    and "mem c (reg_pc c) = 0x6C"
    and "instr (Opcodes 0x6C) = JMP" and "addrm (Opcodes 0x6C) = ind_m"
    and "read16 (mem c) (reg_pc c + 1) = ptr"
    and "ptr AND 0x00FF = 0x00FF"
  shows "reg_pc (snd (step Opcodes c)) =
           ucast (mem c ptr) OR push_bit 8 (ucast (mem c (ptr AND 0xFF00)))"
proof -
  have "(ptr + 1) AND 0x00FF = 0"
    using assms(6) by (rule low_byte_wrap)
  then show ?thesis using assms
    by (simp add: step_def get_operand_addr_def pg_cross_cycles_def arg16_def Let_def
        read16_zpg_def)
qed

text \<open>The scenario of the claim: from \<open>jmp_cpu\<close>, one step sets the program counter to \<open>$1234\<close>.\<close>

theorem jmp_indirect_page_wrap_witness:
  "reg_pc (snd (step example_Opcodes jmp_cpu)) = 0x1234"
  using jmp_indirect_page_wrap [of jmp_cpu example_Opcodes "0x10FF"]
  by (simp add: jmp_cpu_def example_defs interrupt_get_def read16_def)

text \<open>
  C5, as the claim states it, fails: \<^verbatim>\<open>power_cycle\<close> does not assign the program
  counter, so the register files after it differ when the program counters before it
  differ.
\<close>

theorem power_cycle_counterexample:
  "regfile (power_cycle cpu_at_8000) \<noteq> regfile (power_cycle cpu_at_C000)"
  by (simp add: regfile_def power_cycle_def cpu_at_8000_def cpu_at_C000_def cpu_at_def)

text \<open>
  C5, amended. After \<^verbatim>\<open>power_cycle\<close>, from any state: S is \<open>$FD\<close>, A, X and Y are 0,
  P is \<open>$34\<close>, the cycle counter is 0, the state is \<open>Running\<close>, and the program
  counter is what it was.
\<close>

theorem power_cycle_keeps_pc:
  "regfile (power_cycle c) = (reg_pc c, 0xFD, 0, 0, 0, 0x34) \<and>
   cycles (power_cycle c) = 0 \<and> state (power_cycle c) = Running"
  by (simp add: regfile_def power_cycle_def)

text \<open>
  C6. \<open>PHP\<close> followed by \<open>PLP\<close> leaves the status register at its value before the
  two steps with bit 5 set, for every value, provided the push does not overwrite the
  \<open>PLP\<close> opcode itself.
\<close>

theorem php_plp_roundtrip:
  assumes "interrupt_get (interrupt c) = NONE"
    and "instr (Opcodes (mem c (reg_pc c))) = PHP"
    and "addrm (Opcodes (mem c (reg_pc c))) = impl"
    and "instr (Opcodes (mem c (reg_pc c + 1))) = PLP"
    and "addrm (Opcodes (mem c (reg_pc c + 1))) = impl"
    and "reg_pc c + 1 \<noteq> 0x0100 + ucast (reg_s c)"
  shows "reg_p (snd (step Opcodes (snd (step Opcodes c)))) = reg_p c OR 0x20"
proof -
  define c1 where "c1 = snd (step Opcodes c)"
  have "snd (step Opcodes c) = (s_push (reg_p c) (c\<lparr>reg_pc := reg_pc c + 1\<rparr>))
                   \<lparr>cycles := cycles c + ucast (op_cycles (Opcodes (mem c (reg_pc c))))\<rparr>"
    using assms(1,2,3)
    by (simp add: step_def get_operand_addr_def pg_cross_cycles_def Let_def s_push_def)
  then have s1: "c1 = (s_push (reg_p c) (c\<lparr>reg_pc := reg_pc c + 1\<rparr>))
                   \<lparr>cycles := cycles c + ucast (op_cycles (Opcodes (mem c (reg_pc c))))\<rparr>"
    by (simp only: c1_def)
  have i1: "interrupt_get (interrupt c1) = NONE"
    using assms(1) by (simp add: s1 s_push_def)
  have op1: "mem c1 (reg_pc c1) = mem c (reg_pc c + 1)"
    using assms(6) by (simp add: s1 s_push_def)
  have top: "mem c1 (0x0100 + ucast (reg_s c1 + 1)) = reg_p c"
    by (simp add: s1 s_push_def)
  have "reg_p (snd (step Opcodes c1)) = reg_p c OR 0x20"
    using i1 assms(4,5)
    by (simp add: step_def op1 get_operand_addr_def pg_cross_cycles_def Let_def s_pull_def top)
  then show ?thesis by (simp only: c1_def)
qed

theorem php_plp_roundtrip_witness:
  "reg_p (snd (step example_Opcodes (snd (step example_Opcodes php_cpu)))) = 0xE3"
  using php_plp_roundtrip [of php_cpu example_Opcodes]
  by (simp add: php_cpu_def example_defs interrupt_get_def)

section \<open>WideNES: scroll\<close>

lemma fold_invariant:
  assumes "P s" and "\<And>x s. x \<in> set xs \<Longrightarrow> P s \<Longrightarrow> P (f x s)"
  shows "P (fold f xs s)"
  using assms by (induction xs arbitrary: s) auto

subsection \<open>32-bit integers\<close>

lemma int32_range: "- 2147483648 \<le> int32 n" "int32 n \<le> 2147483647"
proof -
  have "0 \<le> (n + 2147483648) mod 4294967296" "(n + 2147483648) mod 4294967296 < 4294967296"
    by simp_all
  then show "- 2147483648 \<le> int32 n" "int32 n \<le> 2147483647"
    unfolding int32_def by linarith+
qed

lemma int32_id: "- 2147483648 \<le> n \<Longrightarrow> n \<le> 2147483647 \<Longrightarrow> int32 n = n"
  by (simp add: int32_def)

lemma uint32_int32: "uint32 (int32 n) = uint32 n"
  by (simp add: uint32_def int32_def mod_simps)

subsection \<open>The frame end changes the tiles last\<close>

lemma update_pixel_tiles_eq:
  "update_pixel fb sx sy w = w\<lparr>tiles := tiles (update_pixel fb sx sy w)\<rparr>"
  by (simp add: update_pixel_def Let_def split: prod.splits)

lemma update_pixel_only_tiles: "\<exists>m. update_pixel fb sx sy w = w\<lparr>tiles := m\<rparr>"
  by (rule exI [where x = "tiles (update_pixel fb sx sy w)"]) (rule update_pixel_tiles_eq)

lemma update_pixels_only_tiles: "\<exists>m. update_pixels fb w = w\<lparr>tiles := m\<rparr>"
proof -
  let ?P = "\<lambda>w'. \<exists>m. w' = w\<lparr>tiles := m\<rparr>"
  have step: "\<And>sx sy w'. ?P w' \<Longrightarrow> ?P (update_pixel fb sx sy w')"
  proof -
    fix sx sy w' assume "?P w'"
    then obtain m where m: "w' = w\<lparr>tiles := m\<rparr>" by blast
    obtain m' where "update_pixel fb sx sy w' = w'\<lparr>tiles := m'\<rparr>"
      using update_pixel_only_tiles by blast
    then show "?P (update_pixel fb sx sy w')" by (auto simp: m)
  qed
  have base: "?P w" by (rule exI [of _ "tiles w"]) simp
  show ?thesis
    unfolding update_pixels_def
    by (rule fold_invariant [where P = ?P, OF base])
       (rule fold_invariant [where P = ?P], assumption, rule step)
qed

lemma update_tiles_only_tiles: "\<exists>m. update_tiles ppu w = w\<lparr>tiles := m\<rparr>"
proof -
  obtain m where "update_pixels (ppu_framebuff_bgr ppu) w = w\<lparr>tiles := m\<rparr>"
    using update_pixels_only_tiles by blast
  then have "update_tiles ppu w = w\<lparr>tiles := tiles (update_tiles ppu w)\<rparr>"
    by (simp add: update_tiles_def save_tiles_def Let_def)
  then show ?thesis by (rule exI [where x = "tiles (update_tiles ppu w)"])
qed

lemma update_tiles_fields:
  "scroll (update_tiles ppu w) = scroll w"
  "pad_total (update_tiles ppu w) = pad_total w"
  "curr_scroll (update_tiles ppu w) = curr_scroll w"
  "last_scroll (update_tiles ppu w) = last_scroll w"
  "h_ppuaddr_active (update_tiles ppu w) = h_ppuaddr_active w"
  "h_ppuaddr_cut_scanline (update_tiles ppu w) = h_ppuaddr_cut_scanline w"
  using update_tiles_only_tiles [of ppu w] by auto

lemma wrap_delta_x_bound:
  assumes "\<bar>d\<bar> \<le> 255" and "0 \<le> l" and "0 \<le> r" and "l + r \<le> 237"
  shows "\<bar>wrap_delta d ((256 - l - r) - fuzz) 256\<bar> \<le> 246"
  using assms by (auto simp: wrap_delta_def fuzz_def)

lemma wrap_delta_y_bound:
  assumes "\<bar>d\<bar> \<le> 255" and "0 \<le> t" and "0 \<le> b" and "t + b \<le> 221"
  shows "\<bar>wrap_delta d ((240 - t - b) - fuzz) 240\<bar> \<le> 230"
  using assms by (auto simp: wrap_delta_def fuzz_def)

text \<open>Both side conditions are tight: one more pixel of padding admits a larger delta.\<close>

lemma wrap_delta_x_tight: "wrap_delta 9 ((256 - 238 - 0) - fuzz) 256 = - 247"
  by (simp add: wrap_delta_def fuzz_def)

lemma wrap_delta_y_tight: "wrap_delta 9 ((240 - 222 - 0) - fuzz) 240 = - 231"
  by (simp add: wrap_delta_def fuzz_def)

lemma u8_diff_bound: "\<bar>uint (a :: u8) - uint (b :: u8)\<bar> \<le> 255"
proof -
  have "uint a < 256" "uint b < 256" "0 \<le> uint a" "0 \<le> uint b"
    using uint_lt2p [of a] uint_lt2p [of b] by simp_all
  then show ?thesis by linarith
qed

lemma final_padding_nonneg:
  "0 \<le> pad_l (pad_total (final_padding w))" "0 \<le> pad_r (pad_total (final_padding w))"
  "0 \<le> pad_t (pad_total (final_padding w))" "0 \<le> pad_b (pad_total (final_padding w))"
  by (simp_all add: final_padding_def)

lemma new_scroll_fields:
  "pad_total (new_scroll w) = pad_total w"
  "curr_scroll (new_scroll w) = curr_scroll w"
  "h_ppuaddr_active (new_scroll w) = h_ppuaddr_active w"
  "h_ppuaddr_cut_scanline (new_scroll w) = h_ppuaddr_cut_scanline w"
  "tiles (new_scroll w) = tiles w"
  by (simp_all add: new_scroll_def Let_def)

lemma thresh_w_eq:
  assumes "0 \<le> pad_l (pad_total w)" and "0 \<le> pad_r (pad_total w)"
    and "pad_l (pad_total w) + pad_r (pad_total w) \<le> 237"
  shows "thresh_w w = (256 - pad_l (pad_total w) - pad_r (pad_total w)) - fuzz"
  using assms by (simp add: thresh_w_def fuzz_def int32_id)

lemma thresh_h_eq:
  assumes "0 \<le> pad_t (pad_total w)" and "0 \<le> pad_b (pad_total w)"
    and "pad_t (pad_total w) + pad_b (pad_total w) \<le> 221"
  shows "thresh_h w = (240 - pad_t (pad_total w) - pad_b (pad_total w)) - fuzz"
  using assms by (simp add: thresh_h_def fuzz_def int32_id)

lemma new_scroll_dx:
  "sc_dx (scroll (new_scroll w)) = wrap_delta (raw_scroll_dx w) (thresh_w w) 256"
  by (simp add: new_scroll_def Let_def raw_scroll_dx_def)

lemma new_scroll_dy:
  "sc_dy (scroll (new_scroll w)) =
     (if h_ppuaddr_active w \<and> \<bar>corrected_scroll_dy w\<bar> > sint (h_ppuaddr_cut_scanline w)
      then 0 else corrected_scroll_dy w)"
  by (simp add: new_scroll_def Let_def corrected_scroll_dy_def raw_scroll_dy_def)

lemma new_scroll_range:
  "- 2147483648 \<le> sc_x (scroll (new_scroll w))" "sc_x (scroll (new_scroll w)) \<le> 2147483647"
  "- 2147483648 \<le> sc_y (scroll (new_scroll w))" "sc_y (scroll (new_scroll w)) \<le> 2147483647"
  by (simp_all add: new_scroll_def Let_def int32_range)

text \<open>
  C8, amended. At every frame end the raw scroll deltas are at most 255 in absolute
  value, the vertical one included (the vertical scroll is any \<^verbatim>\<open>u8\<close>). After the wrap
  correction the committed \<open>dx\<close> is at most \<open>256 - fuzz = 246\<close> in absolute value when
  the total padding left and right is at most 237, whatever the padding top and bottom;
  and the committed \<open>dy\<close> is at most \<open>240 - fuzz = 230\<close> when the total padding top and
  bottom is at most 221, whatever the padding left and right.
\<close>

theorem scroll_delta_bounds:
  "\<bar>raw_scroll_dx (final_padding (heuristics ppu w))\<bar> \<le> 255 \<and>
   \<bar>raw_scroll_dy (final_padding (heuristics ppu w))\<bar> \<le> 255 \<and>
   (pad_l (pad_total (ppu_frame_end_handler ppu w))
      + pad_r (pad_total (ppu_frame_end_handler ppu w)) \<le> 237 \<longrightarrow>
    \<bar>sc_dx (scroll (ppu_frame_end_handler ppu w))\<bar> \<le> 256 - fuzz) \<and>
   (pad_t (pad_total (ppu_frame_end_handler ppu w))
      + pad_b (pad_total (ppu_frame_end_handler ppu w)) \<le> 221 \<longrightarrow>
    \<bar>sc_dy (scroll (ppu_frame_end_handler ppu w))\<bar> \<le> 240 - fuzz)"
proof -
  let ?w = "final_padding (heuristics ppu w)"
  have pt: "pad_total (ppu_frame_end_handler ppu w) = pad_total ?w"
    by (simp add: ppu_frame_end_handler_def update_scroll_def update_tiles_fields new_scroll_fields)
  have rx: "\<bar>raw_scroll_dx ?w\<bar> \<le> 255" unfolding raw_scroll_dx_def by (rule u8_diff_bound)
  have ry: "\<bar>raw_scroll_dy ?w\<bar> \<le> 255" unfolding raw_scroll_dy_def by (rule u8_diff_bound)
  have dx: "\<bar>sc_dx (scroll (ppu_frame_end_handler ppu w))\<bar> \<le> 246"
    if h: "pad_l (pad_total ?w) + pad_r (pad_total ?w) \<le> 237"
  proof -
    have "\<bar>wrap_delta (raw_scroll_dx ?w) (thresh_w ?w) 256\<bar> \<le> 246"
      unfolding thresh_w_eq [OF final_padding_nonneg(1,2) h]
      by (rule wrap_delta_x_bound [OF rx final_padding_nonneg(1,2) h])
    then show ?thesis
      by (simp add: ppu_frame_end_handler_def update_scroll_def update_tiles_fields new_scroll_dx)
  qed
  have dy: "\<bar>sc_dy (scroll (ppu_frame_end_handler ppu w))\<bar> \<le> 230"
    if h: "pad_t (pad_total ?w) + pad_b (pad_total ?w) \<le> 221"
  proof -
    have "\<bar>wrap_delta (raw_scroll_dy ?w) (thresh_h ?w) 240\<bar> \<le> 230"
      unfolding thresh_h_eq [OF final_padding_nonneg(3,4) h]
      by (rule wrap_delta_y_bound [OF ry final_padding_nonneg(3,4) h])
    then have "\<bar>corrected_scroll_dy ?w\<bar> \<le> 230"
      by (simp add: corrected_scroll_dy_def)
    then show ?thesis
      by (simp add: ppu_frame_end_handler_def update_scroll_def update_tiles_fields new_scroll_dy)
  qed
  show ?thesis using rx ry dx dy by (simp add: fuzz_def pt)
qed

subsection \<open>Evaluating concrete frames\<close>

lemmas wn_handler_defs =
  run_def ppu_write_end_handler_def mmc3_irq_handler_def input_keydown_def
  PPUSCROLL_def PPUADDR_def

lemmas wn_scroll_defs =
  update_scroll_def heuristics_def seed_scroll_def guess_left_def ppuaddr_step_def
  mmc3_step_def ppuaddr_heuristic_def mmc3_heuristic_def
  final_padding_def new_scroll_def thresh_w_def thresh_h_def wrap_delta_def fuzz_def
  raw_scroll_dx_def raw_scroll_dy_def corrected_scroll_dy_def int32_def Let_def

lemmas wn_input_defs = wn_init_def zero_scroll_def zero_pad_def ppu0_def

lemma frame_end_scroll_fields:
  "scroll (ppu_frame_end_handler ppu w) = scroll (update_scroll ppu w)"
  "pad_total (ppu_frame_end_handler ppu w) = pad_total (update_scroll ppu w)"
  "h_ppuaddr_active (ppu_frame_end_handler ppu w) = h_ppuaddr_active (update_scroll ppu w)"
  "h_ppuaddr_cut_scanline (ppu_frame_end_handler ppu w) = h_ppuaddr_cut_scanline (update_scroll ppu w)"
  by (simp_all add: ppu_frame_end_handler_def update_tiles_fields)

text \<open>
  C8, as the claim states it, fails. With no padding and the scroll registers going from
  \<open>(0, 0)\<close> to \<open>(246, 230)\<close>, the committed deltas are 246 and 230, above
  \<open>255 - fuzz\<close> and \<open>239 - fuzz\<close>; and with the vertical register going from 0 to 255
  the raw vertical delta is 255, above 239.
\<close>

theorem scroll_delta_counterexample:
  "\<not> \<bar>sc_dx (scroll (ppu_frame_end_handler ppu0 scroll_246_230))\<bar> \<le> 255 - fuzz \<and>
   \<not> \<bar>sc_dy (scroll (ppu_frame_end_handler ppu0 scroll_246_230))\<bar> \<le> 239 - fuzz \<and>
   sc_dx (scroll (ppu_frame_end_handler ppu0 scroll_246_230)) = 246 \<and>
   sc_dy (scroll (ppu_frame_end_handler ppu0 scroll_246_230)) = 230 \<and>
   \<not> \<bar>raw_scroll_dy (final_padding (heuristics ppu0 scroll_y_255))\<bar> \<le> 239 \<and>
   raw_scroll_dy (final_padding (heuristics ppu0 scroll_y_255)) = 255"
  by (simp add: frame_end_scroll_fields scroll_246_230_def scroll_y_255_def wn_handler_defs
      wn_scroll_defs wn_input_defs)

text \<open>
  The amended bounds at the same frame, where they are met with equality; the frame has
  no padding.
\<close>

theorem scroll_delta_bounds_witness:
  "pad_l (pad_total (ppu_frame_end_handler ppu0 scroll_246_230))
     + pad_r (pad_total (ppu_frame_end_handler ppu0 scroll_246_230)) \<le> 237 \<and>
   pad_t (pad_total (ppu_frame_end_handler ppu0 scroll_246_230))
     + pad_b (pad_total (ppu_frame_end_handler ppu0 scroll_246_230)) \<le> 221 \<and>
   \<bar>raw_scroll_dx (final_padding (heuristics ppu0 scroll_246_230))\<bar> \<le> 255 \<and>
   \<bar>raw_scroll_dy (final_padding (heuristics ppu0 scroll_246_230))\<bar> \<le> 255 \<and>
   \<bar>sc_dx (scroll (ppu_frame_end_handler ppu0 scroll_246_230))\<bar> \<le> 256 - fuzz \<and>
   \<bar>sc_dy (scroll (ppu_frame_end_handler ppu0 scroll_246_230))\<bar> \<le> 240 - fuzz"
proof -
  have "pad_total (ppu_frame_end_handler ppu0 scroll_246_230) = zero_pad"
    by (simp add: frame_end_scroll_fields scroll_246_230_def wn_handler_defs wn_scroll_defs
        wn_input_defs)
  then show ?thesis
    using scroll_delta_bounds [of ppu0 scroll_246_230] by (simp add: zero_pad_def)
qed

section \<open>WideNES: the PPUADDR heuristic\<close>
















section \<open>WideNES: tiles\<close>

subsection \<open>Pixels stay inside their tile and its blocks\<close>

lemma div_shift_bounds:
  fixes n k m :: int
  assumes "0 \<le> k" and "k < m" and "0 < m"
  shows "(n + k) div m = n div m \<or> (n + k) div m = n div m + 1"
proof -
  have lo: "n div m \<le> (n + k) div m"
    using assms by (intro zdiv_mono1) simp_all
  have "(n + k) div m \<le> (n + m) div m"
    using assms by (intro zdiv_mono1) simp_all
  also have "\<dots> = n div m + 1"
    using assms(3) div_add_self2 [of m n] by simp
  finally show ?thesis using lo by linarith
qed

lemma uint32_minus_int32: "uint32 (int32 n - c) = uint32 (n - c)"
proof -
  have "uint32 (int32 n - c)
          = ((n + 2147483648) mod 4294967296 - (2147483648 + c)) mod 4294967296"
    by (simp add: uint32_def int32_def diff_diff_eq)
  also have "\<dots> = (n + 2147483648 - (2147483648 + c)) mod 4294967296"
    by (rule mod_diff_left_eq)
  also have "\<dots> = uint32 (n - c)"
    by (simp add: uint32_def)
  finally show ?thesis .
qed

lemma uint32_id: "0 \<le> n \<Longrightarrow> n < 4294967296 \<Longrightarrow> uint32 n = n"
  by (simp add: uint32_def)

text \<open>
  The destination pixel is the remainder of the wrapped sum, whatever the scroll: the block
  indices are inside \<^verbatim>\<open>fill[16][15]\<close>.
\<close>

lemma pixel_in_range:
  fixes scx scy sx sy :: int
  defines "tx \<equiv> int32 (scx + sx) div 256" and "ty \<equiv> int32 (scy + sy) div 240"
  defines "dx \<equiv> uint32 ((scx - tx * 256) + sx)" and "dy \<equiv> uint32 ((scy - ty * 240) + sy)"
  shows "dx = int32 (scx + sx) mod 256 \<and> dy = int32 (scy + sy) mod 240 \<and>
         0 \<le> dx div 16 \<and> dx div 16 < 16 \<and> 0 \<le> dy div 16 \<and> dy div 16 < 15"
proof -
  have "dx = uint32 (int32 (scx + sx) - tx * 256)"
    unfolding dx_def uint32_minus_int32 by (simp add: algebra_simps)
  also have "int32 (scx + sx) - tx * 256 = int32 (scx + sx) mod 256"
    unfolding tx_def by (simp add: minus_div_mult_eq_mod)
  finally have dx: "dx = int32 (scx + sx) mod 256"
    by (simp add: uint32_id)
  have "dy = uint32 (int32 (scy + sy) - ty * 240)"
    unfolding dy_def uint32_minus_int32 by (simp add: algebra_simps)
  also have "int32 (scy + sy) - ty * 240 = int32 (scy + sy) mod 240"
    unfolding ty_def by (simp add: minus_div_mult_eq_mod)
  finally have dy: "dy = int32 (scy + sy) mod 240"
    by (simp add: uint32_id)
  have a: "0 \<le> dx \<and> dx < 256" unfolding dx by simp
  have b: "0 \<le> dy \<and> dy < 240" unfolding dy by simp
  have "dx div 16 \<le> 255 div 16"
    using a by (intro zdiv_mono1) simp_all
  then have e: "0 \<le> dx div 16 \<and> dx div 16 < 16"
    using a by (simp add: pos_imp_zdiv_nonneg_iff)
  have "dy div 16 \<le> 239 div 16"
    using b by (intro zdiv_mono1) simp_all
  then have f: "0 \<le> dy div 16 \<and> dy div 16 < 15"
    using b by (simp add: pos_imp_zdiv_nonneg_iff)
  show ?thesis using dx dy e f by simp
qed

subsection \<open>The map\<close>

lemma tiles_index_fst: "fst (tiles_index m a b) = tile_at m a b"
  by (simp add: tiles_index_def tile_at_def Let_def)

lemma column_upd: "column (m(a \<mapsto> col)) cx = (if cx = a then col else column m cx)"
  by (simp add: column_def)

lemma slot_upd: "slot (col(b \<mapsto> p)) cy = (if cy = b then p else slot col cy)"
  by (simp add: slot_def)

lemma tile_at_tiles_index: "tile_at (snd (tiles_index m a b)) cx cy = tile_at m cx cy"
  by (simp add: tiles_index_def tile_at_def Let_def column_upd slot_upd)

lemma tile_at_tiles_store:
  "tile_at (tiles_store m a b p) cx cy = (if cx = a \<and> cy = b then p else tile_at m cx cy)"
  by (simp add: tiles_store_def tile_at_def column_upd slot_upd)

lemma has_entry_tiles_index:
  "has_entry (snd (tiles_index m a b)) cx cy = ((cx = a \<and> cy = b) \<or> has_entry m cx cy)"
  by (auto simp add: tiles_index_def has_entry_def Let_def column_def split: option.splits)

lemma has_entry_tiles_store:
  "has_entry (tiles_store m a b p) cx cy = ((cx = a \<and> cy = b) \<or> has_entry m cx cy)"
  by (auto simp add: tiles_store_def has_entry_def column_def split: option.splits)

subsection \<open>The pixel loops\<close>

lemma update_pixel_scroll: "scroll (update_pixel fb sx sy w) = scroll w"
  using update_pixel_tiles_eq [of fb sx sy w] by (metis WideNES.select_convs(7) WideNES.surjective WideNES.update_convs(1))

lemma tiles_update_pixel:
  "tiles (update_pixel fb sx sy w) =
     (let tx = int32 (sc_x (scroll w) + sx) div 256;
          ty = int32 (sc_y (scroll w) + sy) div 240
      in tiles_store (snd (tiles_index (tiles w) tx ty)) tx ty
           (Some (draw_pixel fb sx sy (uint32 ((sc_x (scroll w) - tx * 256) + sx))
                    (uint32 ((sc_y (scroll w) - ty * 240) + sy))
                    (case tile_at (tiles w) tx ty of None \<Rightarrow> new_Tile tx ty | Some t \<Rightarrow> t))))"
  by (simp add: update_pixel_def Let_def split_def tiles_index_fst)

lemma has_tile_update_pixel:
  "has_tile (tiles (update_pixel fb sx sy w)) cx cy =
     (has_tile (tiles w) cx cy \<or> coord (scroll w) sx sy = (cx, cy))"
  by (auto simp add: has_tile_def tiles_update_pixel Let_def coord_def tile_at_tiles_store
      tile_at_tiles_index)

lemma tile_at_update_pixel_other:
  "coord (scroll w) sx sy \<noteq> (cx, cy) \<Longrightarrow>
     tile_at (tiles (update_pixel fb sx sy w)) cx cy = tile_at (tiles w) cx cy"
  by (auto simp add: tiles_update_pixel Let_def coord_def tile_at_tiles_store tile_at_tiles_index)

lemma tile_fill_draw_pixel:
  "tile_fill (draw_pixel fb sx sy dx dy t) bx blky =
     (if bx = dx div 16 \<and> blky = dy div 16 then int32 (tile_fill t bx blky + 1)
      else tile_fill t bx blky)"
  by (simp add: draw_pixel_def Let_def)

lemma fill_at_update_pixel:
  "fill_at (tiles (update_pixel fb sx sy w)) cx cy bx blky =
     (if coord (scroll w) sx sy = (cx, cy) then
        Some (let old = (case fill_at (tiles w) cx cy bx blky of None \<Rightarrow> 0 | Some n \<Rightarrow> n)
              in if bx = uint32 ((sc_x (scroll w) - cx * 256) + sx) div 16 \<and>
                    blky = uint32 ((sc_y (scroll w) - cy * 240) + sy) div 16
                 then int32 (old + 1) else old)
      else fill_at (tiles w) cx cy bx blky)"
  by (auto simp add: fill_at_def tiles_update_pixel Let_def coord_def tile_at_tiles_store
      tile_at_tiles_index tile_fill_draw_pixel new_Tile_def split: option.splits)

lemma has_entry_update_pixel:
  "has_entry (tiles w) cx cy \<Longrightarrow> has_entry (tiles (update_pixel fb sx sy w)) cx cy"
  by (simp add: tiles_update_pixel Let_def has_entry_tiles_store has_entry_tiles_index)

subsection \<open>Folds of the pixel loops\<close>

lemma fold_row_scroll: "scroll (fold (\<lambda>sy. update_pixel fb sx sy) ys w) = scroll w"
  by (induction ys arbitrary: w) (simp_all add: update_pixel_scroll)

lemma fold_row_has_tile:
  "has_tile (tiles (fold (\<lambda>sy. update_pixel fb sx sy) ys w)) cx cy =
     (has_tile (tiles w) cx cy \<or> (\<exists>sy\<in>set ys. coord (scroll w) sx sy = (cx, cy)))"
proof (induction ys arbitrary: w)
  case Nil
  show ?case by simp
next
  case (Cons y ys)
  show ?case
    by (simp add: Cons.IH has_tile_update_pixel update_pixel_scroll)
qed

lemma fold_row_other:
  "\<forall>sy\<in>set ys. coord (scroll w) sx sy \<noteq> (cx, cy) \<Longrightarrow>
     tile_at (tiles (fold (\<lambda>sy. update_pixel fb sx sy) ys w)) cx cy = tile_at (tiles w) cx cy"
  by (induction ys arbitrary: w) (simp_all add: tile_at_update_pixel_other update_pixel_scroll)

lemma fold_row_has_entry:
  "has_entry (tiles w) cx cy \<Longrightarrow>
     has_entry (tiles (fold (\<lambda>sy. update_pixel fb sx sy) ys w)) cx cy"
  by (induction ys arbitrary: w) (simp_all add: has_entry_update_pixel)

lemma fold_rows_scroll:
  "scroll (fold (\<lambda>sx. fold (\<lambda>sy. update_pixel fb sx sy) ys) xs w) = scroll w"
  by (induction xs arbitrary: w) (simp_all add: fold_row_scroll)

lemma fold_rows_has_tile:
  "has_tile (tiles (fold (\<lambda>sx. fold (\<lambda>sy. update_pixel fb sx sy) ys) xs w)) cx cy =
     (has_tile (tiles w) cx cy \<or>
      (\<exists>sx\<in>set xs. \<exists>sy\<in>set ys. coord (scroll w) sx sy = (cx, cy)))"
proof (induction xs arbitrary: w)
  case Nil
  show ?case by simp
next
  case (Cons x xs)
  show ?case
    by (simp add: Cons.IH fold_row_has_tile fold_row_scroll)
qed

lemma fold_rows_other:
  "\<forall>sx\<in>set xs. \<forall>sy\<in>set ys. coord (scroll w) sx sy \<noteq> (cx, cy) \<Longrightarrow>
     tile_at (tiles (fold (\<lambda>sx. fold (\<lambda>sy. update_pixel fb sx sy) ys) xs w)) cx cy
       = tile_at (tiles w) cx cy"
  by (induction xs arbitrary: w) (simp_all add: fold_row_other fold_row_scroll)

lemma fold_rows_has_entry:
  "has_entry (tiles w) cx cy \<Longrightarrow>
     has_entry (tiles (fold (\<lambda>sx. fold (\<lambda>sy. update_pixel fb sx sy) ys) xs w)) cx cy"
  by (induction xs arbitrary: w) (simp_all add: fold_row_has_entry)

lemma update_pixels_has_tile:
  "has_tile (tiles (update_pixels fb w)) cx cy =
     (has_tile (tiles w) cx cy \<or> (cx, cy) \<in> pixel_coords w)"
  by (simp add: update_pixels_def fold_rows_has_tile pixel_coords_def)

lemma update_pixels_other:
  "(cx, cy) \<notin> pixel_coords w \<Longrightarrow>
     tile_at (tiles (update_pixels fb w)) cx cy = tile_at (tiles w) cx cy"
  unfolding update_pixels_def
  by (rule fold_rows_other) (simp add: pixel_coords_def)

lemma update_pixels_has_entry:
  "has_entry (tiles w) cx cy \<Longrightarrow> has_entry (tiles (update_pixels fb w)) cx cy"
  unfolding update_pixels_def by (rule fold_rows_has_entry)

subsection \<open>Saving the blocks\<close>

lemma copy_pixel_fill: "tile_fill (copy_pixel bx blky x y t) = tile_fill t"
  by (simp add: copy_pixel_def Let_def)

lemma copy_row_fill:
  "tile_fill (fold (\<lambda>y. copy_pixel bx blky x y) ys t) = tile_fill t"
  by (induction ys arbitrary: t) (simp_all add: copy_pixel_fill)

lemma copy_block_fill:
  "tile_fill (fold (\<lambda>x. fold (\<lambda>y. copy_pixel bx blky x y) ys) xs t) = tile_fill t"
  by (induction xs arbitrary: t) (simp_all add: copy_row_fill)

lemma save_block_fill:
  "tile_fill (save_block bx blky t) = (tile_fill t)(bx := (tile_fill t bx)(blky := 0))"
  by (simp add: save_block_def Let_def copy_block_fill)

lemma save_column_fill:
  "tile_fill (fold (\<lambda>blky. save_block bx blky) ys t) a b =
     (if a = bx \<and> b \<in> set ys then 0 else tile_fill t a b)"
  by (induction ys arbitrary: t) (simp_all add: save_block_fill)

lemma save_columns_fill:
  "tile_fill (fold (\<lambda>bx. fold (\<lambda>blky. save_block bx blky) ys) xs t) a b =
     (if a \<in> set xs \<and> b \<in> set ys then 0 else tile_fill t a b)"
  by (induction xs arbitrary: t) (simp_all add: save_column_fill)

lemma save_blocks_fill_clear: "fill_clear (save_blocks t)"
  unfolding fill_clear_def save_blocks_def
  by (simp only: save_columns_fill) simp

lemma tile_at_save_tile:
  "tile_at (save_tile a b m) cx cy =
     (if cx = a \<and> cy = b then map_option save_blocks (tile_at m a b) else tile_at m cx cy)"
  by (cases "tile_at m a b")
     (simp_all add: save_tile_def split_def tiles_index_fst tile_at_tiles_index
        tile_at_tiles_store)

lemma has_entry_save_tile:
  "has_entry (save_tile a b m) cx cy = ((cx = a \<and> cy = b) \<or> has_entry m cx cy)"
  by (cases "tile_at m a b")
     (simp_all add: save_tile_def split_def tiles_index_fst has_entry_tiles_index
        has_entry_tiles_store)

lemma tile_at_upload_tile: "tile_at (upload_tile a b m) cx cy = tile_at m cx cy"
  by (simp add: upload_tile_def tile_at_tiles_index)

lemma has_entry_upload_tile:
  "has_entry (upload_tile a b m) cx cy = ((cx = a \<and> cy = b) \<or> has_entry m cx cy)"
  by (simp add: upload_tile_def has_entry_tiles_index)

lemma over_four_eq:
  "over_four f tx ty m = f (tx + 1) (ty + 1) (f (tx + 1) ty (f tx (ty + 1) (f tx ty m)))"
  by (simp add: over_four_def)

lemma tile_at_over_four_save:
  "tile_at (over_four save_tile tx ty m) cx cy =
     (if in_four tx ty cx cy then map_option save_blocks (tile_at m cx cy) else tile_at m cx cy)"
  by (auto simp add: over_four_eq tile_at_save_tile in_four_def)

lemma has_entry_over_four_save:
  "has_entry (over_four save_tile tx ty m) cx cy = (in_four tx ty cx cy \<or> has_entry m cx cy)"
  by (auto simp add: over_four_eq has_entry_save_tile in_four_def)

lemma tile_at_over_four_upload:
  "tile_at (over_four upload_tile tx ty m) cx cy = tile_at m cx cy"
  by (simp add: over_four_eq tile_at_upload_tile)

lemma has_entry_over_four_upload:
  "has_entry (over_four upload_tile tx ty m) cx cy = (in_four tx ty cx cy \<or> has_entry m cx cy)"
  by (auto simp add: over_four_eq has_entry_upload_tile in_four_def)

lemma tile_at_save_tiles:
  "tile_at (tiles (save_tiles w)) cx cy =
     (if in_four (sc_x (scroll w) div 256) (sc_y (scroll w) div 240) cx cy
      then map_option save_blocks (tile_at (tiles w) cx cy) else tile_at (tiles w) cx cy)"
  by (simp add: save_tiles_def Let_def tile_at_over_four_upload tile_at_over_four_save)

lemma has_entry_save_tiles:
  "has_entry (tiles (save_tiles w)) cx cy =
     (in_four (sc_x (scroll w) div 256) (sc_y (scroll w) div 240) cx cy \<or>
      has_entry (tiles w) cx cy)"
  by (simp add: save_tiles_def Let_def has_entry_over_four_upload has_entry_over_four_save)

subsection \<open>The tile updates of one frame\<close>

lemma update_pixels_scroll: "scroll (update_pixels fb w) = scroll w"
  unfolding update_pixels_def by (rule fold_rows_scroll)

lemma pixel_coords_in_four:
  assumes "0 \<le> pad_l (pad_total w)" and "0 \<le> pad_r (pad_total w)"
    and "0 \<le> pad_t (pad_total w)" and "0 \<le> pad_b (pad_total w)"
    and "- 2147483648 \<le> sc_x (scroll w)" and "- 2147483648 \<le> sc_y (scroll w)"
    and "sums_fit w"
    and "(cx, cy) \<in> pixel_coords w"
  shows "in_four (sc_x (scroll w) div 256) (sc_y (scroll w) div 240) cx cy"
proof -
  from assms(8) obtain sx sy where
    sx: "pad_l (pad_total w) \<le> sx" "sx \<le> 256 - pad_r (pad_total w) - 1" and
    sy: "pad_t (pad_total w) \<le> sy" "sy \<le> 240 - pad_b (pad_total w) - 1" and
    c: "coord (scroll w) sx sy = (cx, cy)"
    by (auto simp add: pixel_coords_def)
  have fit: "sc_x (scroll w) + sx \<le> 2147483647" "sc_y (scroll w) + sy \<le> 2147483647"
    using assms(7) sx sy by (auto simp add: sums_fit_def)
  have ix: "int32 (sc_x (scroll w) + sx) = sc_x (scroll w) + sx"
    using fit(1) sx(1) assms(1,5) by (intro int32_id) linarith+
  have iy: "int32 (sc_y (scroll w) + sy) = sc_y (scroll w) + sy"
    using fit(2) sy(1) assms(3,6) by (intro int32_id) linarith+
  have x: "(sc_x (scroll w) + sx) div 256 = sc_x (scroll w) div 256 \<or>
           (sc_x (scroll w) + sx) div 256 = sc_x (scroll w) div 256 + 1"
    using sx assms(1,2) by (intro div_shift_bounds) simp_all
  have y: "(sc_y (scroll w) + sy) div 240 = sc_y (scroll w) div 240 \<or>
           (sc_y (scroll w) + sy) div 240 = sc_y (scroll w) div 240 + 1"
    using sy assms(3,4) by (intro div_shift_bounds) simp_all
  show ?thesis using x y c by (auto simp add: in_four_def coord_def ix iy)
qed

lemma has_tile_update_tiles:
  "has_tile (tiles (update_tiles ppu w)) cx cy =
     (has_tile (tiles w) cx cy \<or> (cx, cy) \<in> pixel_coords w)"
proof -
  have "has_tile (tiles (update_tiles ppu w)) cx cy =
          has_tile (tiles (update_pixels (ppu_framebuff_bgr ppu) w)) cx cy"
    by (simp add: has_tile_def update_tiles_def tile_at_save_tiles)
  then show ?thesis by (simp add: update_pixels_has_tile)
qed

lemma has_entry_update_tiles:
  "has_entry (tiles (update_tiles ppu w)) cx cy =
     (in_four (sc_x (scroll w) div 256) (sc_y (scroll w) div 240) cx cy \<or>
      has_entry (tiles (update_pixels (ppu_framebuff_bgr ppu) w)) cx cy)"
  by (simp add: update_tiles_def has_entry_save_tiles update_pixels_scroll)

lemma fill_clear_at_update_tiles:
  assumes "0 \<le> pad_l (pad_total w)" and "0 \<le> pad_r (pad_total w)"
    and "0 \<le> pad_t (pad_total w)" and "0 \<le> pad_b (pad_total w)"
    and "- 2147483648 \<le> sc_x (scroll w)" and "- 2147483648 \<le> sc_y (scroll w)"
    and "sums_fit w"
    and "fill_clear_at (tiles w) cx cy"
  shows "fill_clear_at (tiles (update_tiles ppu w)) cx cy"
proof (cases "in_four (sc_x (scroll w) div 256) (sc_y (scroll w) div 240) cx cy")
  case True
  then have "tile_at (tiles (update_tiles ppu w)) cx cy =
      map_option save_blocks (tile_at (tiles (update_pixels (ppu_framebuff_bgr ppu) w)) cx cy)"
    by (simp add: update_tiles_def tile_at_save_tiles update_pixels_scroll)
  then show ?thesis
    by (cases "tile_at (tiles (update_pixels (ppu_framebuff_bgr ppu) w)) cx cy")
       (simp_all add: fill_clear_at_def save_blocks_fill_clear)
next
  case False
  then have "(cx, cy) \<notin> pixel_coords w"
    using pixel_coords_in_four [OF assms(1-7)] by blast
  then have "tile_at (tiles (update_pixels (ppu_framebuff_bgr ppu) w)) cx cy = tile_at (tiles w) cx cy"
    by (rule update_pixels_other)
  then have "tile_at (tiles (update_tiles ppu w)) cx cy = tile_at (tiles w) cx cy"
    using False by (simp add: update_tiles_def tile_at_save_tiles update_pixels_scroll)
  then show ?thesis using assms(8) by (simp add: fill_clear_at_def)
qed

subsection \<open>The scroll part ignores the tiles\<close>

lemma stage_tiles:
  "tiles (seed_scroll w) = tiles w"
  "tiles (guess_left ppu w) = tiles w"
  "tiles (ppuaddr_heuristic w) = tiles w"
  "tiles (mmc3_heuristic w) = tiles w"
  "tiles (final_padding w) = tiles w"
  by (simp_all add: seed_scroll_def guess_left_def ppuaddr_heuristic_def mmc3_heuristic_def
      final_padding_def Let_def)

lemma update_scroll_tiles: "tiles (update_scroll ppu w) = tiles w"
  by (simp add: update_scroll_def new_scroll_fields heuristics_def mmc3_step_def
      ppuaddr_step_def stage_tiles)

lemma update_scroll_pad_nonneg:
  "0 \<le> pad_l (pad_total (update_scroll ppu w))" "0 \<le> pad_r (pad_total (update_scroll ppu w))"
  "0 \<le> pad_t (pad_total (update_scroll ppu w))" "0 \<le> pad_b (pad_total (update_scroll ppu w))"
  by (simp_all add: update_scroll_def new_scroll_fields final_padding_nonneg)

lemma update_scroll_range:
  "- 2147483648 \<le> sc_x (scroll (update_scroll ppu w))"
  "- 2147483648 \<le> sc_y (scroll (update_scroll ppu w))"
  by (simp_all add: update_scroll_def new_scroll_range)

lemma stage_commute:
  "seed_scroll (w\<lparr>tiles := m\<rparr>) = (seed_scroll w)\<lparr>tiles := m\<rparr>"
  "guess_left ppu (w\<lparr>tiles := m\<rparr>) = (guess_left ppu w)\<lparr>tiles := m\<rparr>"
  "ppuaddr_heuristic (w\<lparr>tiles := m\<rparr>) = (ppuaddr_heuristic w)\<lparr>tiles := m\<rparr>"
  "mmc3_heuristic (w\<lparr>tiles := m\<rparr>) = (mmc3_heuristic w)\<lparr>tiles := m\<rparr>"
  "final_padding (w\<lparr>tiles := m\<rparr>) = (final_padding w)\<lparr>tiles := m\<rparr>"
  "new_scroll (w\<lparr>tiles := m\<rparr>) = (new_scroll w)\<lparr>tiles := m\<rparr>"
  by (simp_all add: seed_scroll_def guess_left_def ppuaddr_heuristic_def mmc3_heuristic_def
      final_padding_def new_scroll_def thresh_w_def thresh_h_def Let_def)

lemma step_commute:
  "ppuaddr_step (w\<lparr>tiles := m\<rparr>) = (ppuaddr_step w)\<lparr>tiles := m\<rparr>"
  "mmc3_step (w\<lparr>tiles := m\<rparr>) = (mmc3_step w)\<lparr>tiles := m\<rparr>"
  by (simp_all add: ppuaddr_step_def ppuaddr_heuristic_def mmc3_step_def mmc3_heuristic_def
      Let_def)

lemma heuristics_commute:
  "heuristics ppu (w\<lparr>tiles := m\<rparr>) = (heuristics ppu w)\<lparr>tiles := m\<rparr>"
  by (simp add: heuristics_def stage_commute step_commute)

lemma update_scroll_commute:
  "update_scroll ppu (w\<lparr>tiles := m\<rparr>) = (update_scroll ppu w)\<lparr>tiles := m\<rparr>"
  by (simp add: update_scroll_def heuristics_commute stage_commute)


lemma frame_end_only_tiles:
  "ppu_frame_end_handler ppu w =
     (update_scroll ppu w)\<lparr>tiles := tiles (ppu_frame_end_handler ppu w)\<rparr>"
proof -
  obtain m where m: "update_tiles ppu (update_scroll ppu w) = (update_scroll ppu w)\<lparr>tiles := m\<rparr>"
    using update_tiles_only_tiles by blast
  show ?thesis
    unfolding ppu_frame_end_handler_def by (subst (1 2) m) simp
qed


subsection \<open>Runs\<close>

lemma tile_at_empty: "tile_at Map.empty cx cy = None"
  by (simp add: tile_at_def column_def slot_def)

lemma keydown_tiles:
  "tiles (keydown key mod_shift w) = (if key = SDLK_k then Map.empty else tiles w)"
  by (cases key) simp_all

lemma frame_end_fill_clear:
  assumes "sums_fit (update_scroll ppu w)" and "fill_clear_at (tiles w) cx cy"
  shows "fill_clear_at (tiles (ppu_frame_end_handler ppu w)) cx cy"
  unfolding ppu_frame_end_handler_def
  by (rule fill_clear_at_update_tiles [OF update_scroll_pad_nonneg update_scroll_range assms(1)])
     (simp add: update_scroll_tiles assms(2))

lemma handle_fill_clear:
  assumes "frame_fits e w" and "fill_clear_at (tiles w) cx cy"
  shows "fill_clear_at (tiles (handle e w)) cx cy"
proof (cases e)
  case (PpuWriteEnd ppu addr val)
  then show ?thesis using assms by (simp add: ppu_write_end_handler_def Let_def)
next
  case (Mmc3Irq irq_latch irq_enabled)
  then show ?thesis using assms by (simp add: mmc3_irq_handler_def)
next
  case (PpuFrameEnd ppu)
  then show ?thesis using assms by (simp add: frame_end_fill_clear)
next
  case (KeyDown in_menu key mod_shift)
  then show ?thesis using assms
    by (simp add: input_keydown_def keydown_tiles fill_clear_at_def tile_at_empty)
qed

lemma run_fill_clear:
  "frames_fit evs w \<Longrightarrow> fill_clear_at (tiles w) cx cy \<Longrightarrow>
     fill_clear_at (tiles (run evs w)) cx cy"
  unfolding run_def by (induction evs arbitrary: w) (simp_all add: handle_fill_clear)

text \<open>
  C7, amended. After a frame end, following any run of callbacks and key presses from the
  initial state, every tile in the map has fill 0 in each of its 16 by 15 blocks,
  provided that in this frame and in the frames before it no sum
  \<^verbatim>\<open>this->scroll.x + sx\<close> or \<^verbatim>\<open>this->scroll.y + sy\<close> of the pixel loops exceeded
  \<^verbatim>\<open>INT_MAX\<close>.
\<close>

theorem fill_zero_while_sums_fit:
  assumes "frames_fit evs wn_init" and "sums_fit (update_scroll ppu (run evs wn_init))"
  shows "fill_clear_at (tiles (ppu_frame_end_handler ppu (run evs wn_init))) cx cy"
proof -
  have "fill_clear_at (tiles wn_init) cx cy"
    by (simp add: wn_init_def fill_clear_at_def tile_at_empty)
  then have "fill_clear_at (tiles (run evs wn_init)) cx cy"
    by (rule run_fill_clear [OF assms(1)])
  then show ?thesis by (rule frame_end_fill_clear [OF assms(2)])
qed

lemma first_frame:
  "scroll (update_scroll ppu0 wn_init) = \<lparr>sc_x = 0, sc_y = 0, sc_dx = 0, sc_dy = 0\<rparr>"
  "pad_total (update_scroll ppu0 wn_init) = zero_pad"
  by (simp_all add: wn_scroll_defs wn_input_defs)

lemma first_frame_pixel_coords: "pixel_coords (update_scroll ppu0 wn_init) = {(0, 0)}"
proof -
  have "\<And>sx :: int. 0 \<le> sx \<Longrightarrow> sx \<le> 255 \<Longrightarrow> int32 sx div 256 = 0"
    by (simp add: int32_id)
  moreover have "\<And>sy :: int. 0 \<le> sy \<Longrightarrow> sy \<le> 239 \<Longrightarrow> int32 sy div 240 = 0"
    by (simp add: int32_id)
  ultimately show ?thesis
    by (auto simp add: pixel_coords_def first_frame zero_pad_def coord_def intro!: bexI [of _ 0])
qed

lemma first_frame_sums_fit: "sums_fit (update_scroll ppu0 wn_init)"
  by (simp add: sums_fit_def first_frame zero_pad_def)

lemma second_frame:
  "scroll (update_scroll ppu0 (ppu_frame_end_handler ppu0 wn_init))
     = \<lparr>sc_x = 0, sc_y = 0, sc_dx = 0, sc_dy = 0\<rparr>"
  "pad_total (update_scroll ppu0 (ppu_frame_end_handler ppu0 wn_init)) = zero_pad"
proof -
  define m where "m = tiles (ppu_frame_end_handler ppu0 wn_init)"
  have W: "ppu_frame_end_handler ppu0 wn_init = (update_scroll ppu0 wn_init)\<lparr>tiles := m\<rparr>"
    unfolding m_def by (rule frame_end_only_tiles)
  have U: "update_scroll ppu0 wn_init = wn_init"
    by (simp add: wn_scroll_defs wn_input_defs)
  show "scroll (update_scroll ppu0 (ppu_frame_end_handler ppu0 wn_init))
          = \<lparr>sc_x = 0, sc_y = 0, sc_dx = 0, sc_dy = 0\<rparr>"
    unfolding W update_scroll_commute by (simp add: U) (simp add: wn_init_def)
  show "pad_total (update_scroll ppu0 (ppu_frame_end_handler ppu0 wn_init)) = zero_pad"
    unfolding W update_scroll_commute by (simp add: U) (simp add: wn_init_def)
qed

text \<open>
  Two frames with the camera at the origin: no sum exceeds \<^verbatim>\<open>INT_MAX\<close>, and after the
  second frame the map holds the tile \<open>(0, 0)\<close>, with fill 0 everywhere.
\<close>

theorem fill_zero_while_sums_fit_witness:
  "frames_fit [PpuFrameEnd ppu0] wn_init \<and>
   sums_fit (update_scroll ppu0 (run [PpuFrameEnd ppu0] wn_init)) \<and>
   has_tile (tiles (ppu_frame_end_handler ppu0 (run [PpuFrameEnd ppu0] wn_init))) 0 0 \<and>
   fill_clear_at (tiles (ppu_frame_end_handler ppu0 (run [PpuFrameEnd ppu0] wn_init))) 0 0"
proof -
  have a: "frames_fit [PpuFrameEnd ppu0] wn_init"
    by (simp add: first_frame_sums_fit)
  have b: "sums_fit (update_scroll ppu0 (run [PpuFrameEnd ppu0] wn_init))"
    by (simp add: run_def sums_fit_def second_frame zero_pad_def)
  have c: "has_tile (tiles (run [PpuFrameEnd ppu0] wn_init)) 0 0"
    by (simp add: run_def ppu_frame_end_handler_def has_tile_update_tiles first_frame_pixel_coords)
  then have d: "has_tile (tiles (ppu_frame_end_handler ppu0 (run [PpuFrameEnd ppu0] wn_init))) 0 0"
    by (simp add: ppu_frame_end_handler_def has_tile_update_tiles update_scroll_tiles)
  show ?thesis
    using fill_zero_while_sums_fit [OF a b, of 0 0] a b d by simp
qed

subsection \<open>A frame near \<^verbatim>\<open>INT_MAX\<close>\<close>

lemma near_int_max_frame:
  "scroll (update_scroll ppu0 near_int_max)
     = \<lparr>sc_x = 2147483547, sc_y = 0, sc_dx = 0, sc_dy = 0\<rparr>"
  "pad_total (update_scroll ppu0 near_int_max)
     = \<lparr>pad_l = 246, pad_r = 0, pad_t = 230, pad_b = 0\<rparr>"
  "tiles (update_scroll ppu0 near_int_max) = Map.empty"
  by (simp_all add: near_int_max_def wn_scroll_defs wn_input_defs)

lemma fill_at_empty: "fill_at Map.empty cx cy bx blky = None"
  by (simp add: fill_at_def tile_at_empty)

lemma fill_at_save_tiles:
  "\<not> in_four (sc_x (scroll w) div 256) (sc_y (scroll w) div 240) cx cy \<Longrightarrow>
     fill_at (tiles (save_tiles w)) cx cy bx blky = fill_at (tiles w) cx cy bx blky"
  by (simp add: fill_at_def tile_at_save_tiles)

lemma fill_clear_at_old:
  assumes "fill_clear_at m cx cy"
    and "0 \<le> bx" and "bx \<le> 15" and "0 \<le> blky" and "blky \<le> 14"
  shows "(case fill_at m cx cy bx blky of None \<Rightarrow> 0 | Some n \<Rightarrow> n) = 0"
  using assms by (auto simp add: fill_clear_at_def fill_clear_def fill_at_def split: option.splits)

lemma fill_at_not_clear:
  assumes "fill_at m cx cy bx blky = Some n" and "n \<noteq> 0"
    and "0 \<le> bx" and "bx \<le> 15" and "0 \<le> blky" and "blky \<le> 14"
  shows "\<not> fill_clear_at m cx cy"
proof
  assume "fill_clear_at m cx cy"
  then have "(case fill_at m cx cy bx blky of None \<Rightarrow> 0 | Some n \<Rightarrow> n) = 0"
    using assms(3-6) by (rule fill_clear_at_old)
  then show False using assms(1,2) by simp
qed

text \<open>
  The hundred pixels of the frame of \<open>near_int_max\<close>: each sum
  \<^verbatim>\<open>this->scroll.x + sx\<close> wraps to a value from \<open>- 2147483503\<close> to
  \<open>- 2147483494\<close>, the tile is \<open>(- 8388608, 0)\<close>, and all of them are counted in its
  block \<open>(9, 14)\<close>.
\<close>

lemma near_int_max_fill:
  "fill_at (tiles (update_pixels fb (update_scroll ppu0 near_int_max))) (- 8388608) 0 9 14
     = Some 100"
  unfolding update_pixels_def near_int_max_frame
  apply (simp add: upto_rec_numeral)
  apply (simp add: fill_at_update_pixel update_pixel_scroll fill_at_empty near_int_max_frame
      coord_def int32_def uint32_def)
  done

text \<open>
  With the camera 100 pixels short of \<^verbatim>\<open>INT_MAX\<close> the sums
  \<^verbatim>\<open>this->scroll.x + sx\<close> of the frame wrap: step 1 counts the pixels in the tile
  \<open>(- 8388608, 0)\<close>, while step 2 resets the tiles at
  \<open>(8388607 + {0, 1}, 0 + {0, 1})\<close>. After the frame the tile \<open>(- 8388608, 0)\<close> has
  fill 100 in its block \<open>(9, 14)\<close>.
\<close>

lemma near_int_max_not_reset:
  "\<not> sums_fit (update_scroll ppu0 near_int_max) \<and>
   fill_at (tiles (ppu_frame_end_handler ppu0 near_int_max)) (- 8388608) 0 9 14 = Some 100 \<and>
   \<not> fill_clear_at (tiles (ppu_frame_end_handler ppu0 near_int_max)) (- 8388608) 0"
proof -
  have "\<exists>sx :: int. 246 \<le> sx \<and> sx \<le> 255"
    by (rule exI [of _ 246]) simp
  moreover have "\<exists>sy :: int. 230 \<le> sy \<and> sy \<le> 239"
    by (rule exI [of _ 230]) simp
  ultimately have a: "\<not> sums_fit (update_scroll ppu0 near_int_max)"
    by (simp add: sums_fit_def near_int_max_frame)
  have "\<not> in_four (sc_x (scroll (update_scroll ppu0 near_int_max)) div 256)
               (sc_y (scroll (update_scroll ppu0 near_int_max)) div 240) (- 8388608) 0"
    by (simp add: near_int_max_frame in_four_def)
  then have b: "fill_at (tiles (ppu_frame_end_handler ppu0 near_int_max)) (- 8388608) 0 9 14
                  = Some 100"
    by (simp add: ppu_frame_end_handler_def update_tiles_def fill_at_save_tiles
        update_pixels_scroll near_int_max_fill)
  have c: "\<not> fill_clear_at (tiles (ppu_frame_end_handler ppu0 near_int_max)) (- 8388608) 0"
    by (rule fill_at_not_clear [OF b]) simp_all
  show ?thesis using a b c by simp
qed

subsection \<open>Panning to \<^verbatim>\<open>INT_MAX\<close> from the initial state\<close>

lemma run_append: "run (xs @ ys) w = run ys (run xs w)"
  by (simp add: run_def)

lemma frames_fit_append:
  "frames_fit (xs @ ys) w = (frames_fit xs w \<and> frames_fit ys (run xs w))"
  by (induction xs arbitrary: w) (simp_all add: run_def)

lemma pad_keys_run:
  "run pad_keys wn_init =
     wn_init\<lparr>pad_offset := \<lparr>pad_l = 237, pad_r = 0, pad_t = 230, pad_b = 0\<rparr>\<rparr>"
  by (simp add: pad_keys_def run_def input_keydown_def key_amount_def int32_def wn_init_def
      zero_pad_def numeral_eq_Suc)

lemma pad_keys_fit: "frames_fit pad_keys w"
  by (simp add: pad_keys_def numeral_eq_Suc)

lemma panned_0: "panned 0 (run pad_keys wn_init)"
  unfolding pad_keys_run by (simp add: panned_def wn_init_def zero_scroll_def zero_pad_def)

lemma u8_step:
  fixes v :: u8
  shows "uint (v + 9) - uint v = 9 \<or> uint (v + 9) - uint v = - 247"
proof -
  have a: "uint (v + 9) = (uint v + 9) mod 256"
    by (simp add: uint_word_ariths)
  have b: "0 \<le> uint v" "uint v < 256"
    using uint_lt2p [of v] by simp_all
  show ?thesis
  proof (cases "uint v + 9 < 256")
    case True
    then have "(uint v + 9) mod 256 = uint v + 9" using b by simp
    then show ?thesis unfolding a by simp
  next
    case False
    then have "(uint v + 9) mod 256 = uint v + 9 - 256"
      using b by (simp add: mod_pos_geq)
    then show ?thesis unfolding a by simp
  qed
qed

lemma wrap_delta_step:
  "d = 9 \<or> d = - 247 \<Longrightarrow> wrap_delta d 9 256 = 9"
  by (auto simp add: wrap_delta_def)

lemma pan_step:
  assumes "panned n w" and "9 * int (Suc n) \<le> 2147483647"
  defines "u \<equiv> update_scroll ppu0
                 (ppu_write_end_handler latch_ppu PPUSCROLL (of_nat (9 * Suc n)) w)"
  shows "panned (Suc n) u"
    and "pad_total u = \<lparr>pad_l = 237, pad_r = 0, pad_t = 230, pad_b = 0\<rparr>"
    and "tiles u = tiles w"
proof -
  define v :: u8 where "v = of_nat (9 * n)"
  have v9: "(of_nat (9 * Suc n) :: u8) = v + 9"
    by (simp add: v_def)
  have st: "wrap_delta (uint (v + 9) - uint v) 9 256 = 9"
    by (rule wrap_delta_step) (rule u8_step)
  have f: "last_scroll w = \<lparr>ns_x = v, ns_y = 0\<rparr>" "h_ppuscroll_curr w = \<lparr>ns_x = v, ns_y = 0\<rparr>"
    "sc_x (scroll w) = 9 * int n" "sc_y (scroll w) = 0"
    "pad_offset w = \<lparr>pad_l = 237, pad_r = 0, pad_t = 230, pad_b = 0\<rparr>"
    "pad_r (pad_guess w) = 0" "pad_t (pad_guess w) = 0" "pad_b (pad_guess w) = 0"
    "\<not> h_ppuaddr_did_change w" "\<not> h_mmc3_irq_happened w" "\<not> h_ppuaddr_active w"
    using assms(1) by (simp_all add: panned_def v_def)
  have i: "int32 (9 * int n + 9) = 9 * int n + 9"
    using assms(2) by (intro int32_id) simp_all
  show "panned (Suc n) u"
    unfolding u_def v9 panned_def
    by (simp add: f st i int32_id update_scroll_def heuristics_def seed_scroll_def guess_left_def
        ppuaddr_step_def mmc3_step_def final_padding_def new_scroll_def thresh_w_def thresh_h_def
        fuzz_def ppu_write_end_handler_def PPUSCROLL_def PPUADDR_def latch_ppu_def ppu0_def Let_def
        wrap_delta_def [of 0])
  show "pad_total u = \<lparr>pad_l = 237, pad_r = 0, pad_t = 230, pad_b = 0\<rparr>"
    unfolding u_def v9
    by (simp add: f int32_id update_scroll_def heuristics_def seed_scroll_def guess_left_def
        ppuaddr_step_def mmc3_step_def final_padding_def new_scroll_def
        ppu_write_end_handler_def PPUSCROLL_def PPUADDR_def latch_ppu_def ppu0_def Let_def)
  show "tiles u = tiles w"
    unfolding u_def by (simp add: update_scroll_tiles ppu_write_end_handler_def Let_def)
qed


lemma panned_frame_end:
  "panned n (ppu_frame_end_handler ppu w) = panned n (update_scroll ppu w)"
  by (subst frame_end_only_tiles) (simp add: panned_def)

lemma pan_right_step:
  "run (pad_keys @ pan_right (Suc n)) wn_init =
     ppu_frame_end_handler ppu0
       (ppu_write_end_handler latch_ppu PPUSCROLL (of_nat (9 * Suc n))
          (run (pad_keys @ pan_right n) wn_init))"
  by (simp add: run_def)

lemma pan_right_panned:
  "9 * int n \<le> 2147483647 \<Longrightarrow> panned n (run (pad_keys @ pan_right n) wn_init)"
proof (induction n)
  case 0
  show ?case by (simp add: panned_0)
next
  case (Suc n)
  then have "panned n (run (pad_keys @ pan_right n) wn_init)" by simp
  then show ?case
    unfolding pan_right_step panned_frame_end using Suc.prems by (rule pan_step(1))
qed

lemma pan_right_fit:
  "9 * int n + 255 \<le> 2147483647 \<Longrightarrow> frames_fit (pad_keys @ pan_right n) wn_init"
proof (induction n)
  case 0
  show ?case by (simp add: pad_keys_fit)
next
  case (Suc n)
  define u where
    "u = update_scroll ppu0
           (ppu_write_end_handler latch_ppu PPUSCROLL (of_nat (9 * Suc n))
              (run (pad_keys @ pan_right n) wn_init))"
  have p: "panned n (run (pad_keys @ pan_right n) wn_init)"
    using Suc.prems by (intro pan_right_panned) simp
  have le: "9 * int (Suc n) \<le> 2147483647"
    using Suc.prems by simp
  have pu: "panned (Suc n) u"
    "pad_total u = \<lparr>pad_l = 237, pad_r = 0, pad_t = 230, pad_b = 0\<rparr>"
    unfolding u_def by (rule pan_step [OF p le])+
  have fit: "sums_fit u"
    using pu Suc.prems by (simp add: sums_fit_def panned_def)
  have before: "frames_fit (pad_keys @ pan_right n) wn_init"
    using Suc.prems by (intro Suc.IH) simp
  have "frames_fit (pad_keys @ pan_right (Suc n)) wn_init =
          (frames_fit (pad_keys @ pan_right n) wn_init \<and> sums_fit u)"
    by (simp only: u_def pan_right.simps
        frames_fit_append [of "pad_keys @ pan_right n", unfolded append_assoc]
        frames_fit.simps frame_fits.simps handle.simps simp_thms)
  then show ?case using before fit by simp
qed


text \<open>
  C7, as the claim states it, fails. From the initial state, with the frame padded down
  to the columns from 237 and the rows from 230, the game pans right by 9 pixels a frame.
  In the first 238609265 frames no sum \<^verbatim>\<open>this->scroll.x + sx\<close> exceeds
  \<^verbatim>\<open>INT_MAX\<close>. The next frame puts the camera at 2147483394: the sums of the columns
  254 and 255 wrap, step 1 counts their twenty pixels in the tile \<open>(- 8388608, 0)\<close>,
  and step 2 resets the tiles at \<open>(8388607 + {0, 1}, 0 + {0, 1})\<close>. After the frame
  the tile \<open>(- 8388608, 0)\<close> has fill 20 in its block \<open>(0, 14)\<close>.
\<close>

theorem fill_not_reset_counterexample:
  "frames_fit (pad_keys @ pan_right 238609265) wn_init \<and>
   fill_at (tiles (run (pad_keys @ pan_right (Suc 238609265)) wn_init)) (- 8388608) 0 0 14
     = Some 20 \<and>
   \<not> fill_clear_at (tiles (run (pad_keys @ pan_right (Suc 238609265)) wn_init)) (- 8388608) 0"
proof -
  define w where "w = run (pad_keys @ pan_right 238609265) wn_init"
  define u where
    "u = update_scroll ppu0
           (ppu_write_end_handler latch_ppu PPUSCROLL (of_nat (9 * Suc 238609265)) w)"
  have fit: "frames_fit (pad_keys @ pan_right 238609265) wn_init"
    by (rule pan_right_fit) simp
  have p: "panned 238609265 w"
    unfolding w_def by (rule pan_right_panned) simp
  have le: "9 * int (Suc 238609265) \<le> 2147483647" by simp
  have pu: "panned (Suc 238609265) u"
    "pad_total u = \<lparr>pad_l = 237, pad_r = 0, pad_t = 230, pad_b = 0\<rparr>"
    "tiles u = tiles w"
    unfolding u_def by (rule pan_step [OF p le])+
  have sc: "sc_x (scroll u) = 2147483394" "sc_y (scroll u) = 0"
    using pu(1) by (simp_all add: panned_def)
  have "fill_clear_at (tiles wn_init) (- 8388608) 0"
    by (simp add: wn_init_def fill_clear_at_def tile_at_empty)
  then have "fill_clear_at (tiles w) (- 8388608) 0"
    unfolding w_def by (rule run_fill_clear [OF fit])
  then have old: "(case fill_at (tiles u) (- 8388608) 0 0 14 of None \<Rightarrow> 0 | Some n \<Rightarrow> n) = 0"
    unfolding pu(3) by (rule fill_clear_at_old) simp_all
  have pixels: "fill_at (tiles (update_pixels (ppu_framebuff_bgr ppu0) u)) (- 8388608) 0 0 14
                  = Some 20"
    unfolding update_pixels_def pu(2)
    apply (simp add: upto_rec_numeral)
    apply (simp add: fill_at_update_pixel update_pixel_scroll coord_def sc old int32_def
        uint32_def)
    done
  have "\<not> in_four (sc_x (scroll (update_pixels (ppu_framebuff_bgr ppu0) u)) div 256)
               (sc_y (scroll (update_pixels (ppu_framebuff_bgr ppu0) u)) div 240) (- 8388608) 0"
    by (simp add: update_pixels_scroll sc in_four_def)
  then have "fill_at (tiles (update_tiles ppu0 u)) (- 8388608) 0 0 14 = Some 20"
    unfolding update_tiles_def by (simp add: fill_at_save_tiles pixels)
  then have f: "fill_at (tiles (run (pad_keys @ pan_right (Suc 238609265)) wn_init))
                  (- 8388608) 0 0 14 = Some 20"
    unfolding pan_right_step ppu_frame_end_handler_def u_def w_def .
  have c: "\<not> fill_clear_at (tiles (run (pad_keys @ pan_right (Suc 238609265)) wn_init))
                (- 8388608) 0"
    by (rule fill_at_not_clear [OF f]) simp_all
  show ?thesis using fit f c by simp
qed

subsection \<open>The tiles that hold pixels\<close>

lemma has_tile_empty: "has_tile Map.empty cx cy = False"
  by (simp add: has_tile_def tile_at_empty)

lemma has_tile_frame_end:
  "has_tile (tiles (ppu_frame_end_handler ppu w)) cx cy =
     (has_tile (tiles w) cx cy \<or> (cx, cy) \<in> pixel_coords (update_scroll ppu w))"
  by (simp add: ppu_frame_end_handler_def has_tile_update_tiles update_scroll_tiles)

lemma has_entry_frame_end:
  "has_entry (tiles w) cx cy \<Longrightarrow> has_entry (tiles (ppu_frame_end_handler ppu w)) cx cy"
  by (simp add: ppu_frame_end_handler_def has_entry_update_tiles update_pixels_has_entry
      update_scroll_tiles)

lemma has_entry_frame_end_probe:
  "in_four (sc_x (scroll (update_scroll ppu w)) div 256)
           (sc_y (scroll (update_scroll ppu w)) div 240) cx cy \<Longrightarrow>
     has_entry (tiles (ppu_frame_end_handler ppu w)) cx cy"
  by (simp add: ppu_frame_end_handler_def has_entry_update_tiles)

lemma handle_written:
  assumes "\<And>a b. has_tile (tiles w) a b = ((a, b) \<in> W)"
  shows "has_tile (tiles (handle e w)) cx cy = ((cx, cy) \<in> written_step e w W)"
proof (cases e)
  case (PpuWriteEnd ppu addr val)
  then show ?thesis using assms by (simp add: ppu_write_end_handler_def Let_def)
next
  case (Mmc3Irq irq_latch irq_enabled)
  then show ?thesis using assms by (simp add: mmc3_irq_handler_def)
next
  case (PpuFrameEnd ppu)
  then show ?thesis using assms by (simp add: has_tile_frame_end)
next
  case (KeyDown in_menu key mod_shift)
  then show ?thesis using assms
    by (simp add: input_keydown_def keydown_tiles has_tile_empty)
qed

lemma run_written:
  assumes "\<And>a b. has_tile (tiles w) a b = ((a, b) \<in> W)"
  shows "has_tile (tiles (run evs w)) cx cy = ((cx, cy) \<in> written evs w W)"
  using assms
proof (induction evs arbitrary: w W)
  case Nil
  then show ?case by (simp add: run_def)
next
  case (Cons e evs)
  have "has_tile (tiles (run evs (handle e w))) cx cy =
          ((cx, cy) \<in> written evs (handle e w) (written_step e w W))"
    by (rule Cons.IH) (rule handle_written, rule Cons.prems)
  then show ?case by (simp add: run_def)
qed

lemma handle_has_entry:
  assumes "\<not> is_clear e" and "has_entry (tiles w) cx cy"
  shows "has_entry (tiles (handle e w)) cx cy"
proof (cases e)
  case (PpuWriteEnd ppu addr val)
  then show ?thesis using assms by (simp add: ppu_write_end_handler_def Let_def)
next
  case (Mmc3Irq irq_latch irq_enabled)
  then show ?thesis using assms by (simp add: mmc3_irq_handler_def)
next
  case (PpuFrameEnd ppu)
  then show ?thesis using assms by (simp add: has_entry_frame_end)
next
  case (KeyDown in_menu key mod_shift)
  then show ?thesis using assms
    by (auto simp add: input_keydown_def keydown_tiles)
qed

text \<open>
  C9, amended. At every point of a run from the initial state, the map holds a tile at a
  coordinate exactly when a pixel has been written into that tile since the tiles were
  last cleared; and no event other than the clear removes an entry of the map.
\<close>

theorem tiles_hold_written_pixels:
  "has_tile (tiles (run evs wn_init)) cx cy = ((cx, cy) \<in> written evs wn_init {}) \<and>
   (\<not> is_clear e \<and> has_entry (tiles (run evs wn_init)) cx cy \<longrightarrow>
      has_entry (tiles (handle e (run evs wn_init))) cx cy)"
proof -
  have "\<And>a b. has_tile (tiles wn_init) a b = ((a, b) \<in> {})"
    by (simp add: wn_init_def has_tile_empty)
  then have "has_tile (tiles (run evs wn_init)) cx cy = ((cx, cy) \<in> written evs wn_init {})"
    by (rule run_written)
  then show ?thesis using handle_has_entry by blast
qed

lemma first_frame_in_four: "in_four 0 0 cx cy = ((cx = 0 \<or> cx = 1) \<and> (cy = 0 \<or> cy = 1))"
  by (simp add: in_four_def)

text \<open>After the first frame the tile \<open>(0, 0)\<close> is there, and the second frame keeps its entry.\<close>

theorem tiles_hold_written_pixels_witness:
  "has_tile (tiles (run [PpuFrameEnd ppu0] wn_init)) 0 0 \<and>
   (0, 0) \<in> written [PpuFrameEnd ppu0] wn_init {} \<and>
   has_entry (tiles (handle (PpuFrameEnd ppu0) (run [PpuFrameEnd ppu0] wn_init))) 0 0"
proof -
  have a: "has_entry (tiles (run [PpuFrameEnd ppu0] wn_init)) 0 0"
    by (simp add: run_def has_entry_frame_end_probe first_frame in_four_def)
  show ?thesis
    using tiles_hold_written_pixels [of "[PpuFrameEnd ppu0]" 0 0 "PpuFrameEnd ppu0"] a
    by (simp add: first_frame_pixel_coords)
qed

text \<open>
  C9, as the claim states it, fails. The first frame writes all its pixels into the tile
  \<open>(0, 0)\<close>, and step 2 looks up \<^verbatim>\<open>this->tiles[tx + dx][ty + dy]\<close> at the four
  coordinates: after it the map has an entry for \<open>(1, 0)\<close>, a null pointer, though no
  pixel was written there.
\<close>

theorem tiles_entry_counterexample:
  "has_entry (tiles (ppu_frame_end_handler ppu0 wn_init)) 1 0 \<and>
   \<not> has_tile (tiles (ppu_frame_end_handler ppu0 wn_init)) 1 0 \<and>
   (1, 0) \<notin> written [PpuFrameEnd ppu0] wn_init {}"
proof -
  have a: "has_entry (tiles (ppu_frame_end_handler ppu0 wn_init)) 1 0"
    by (rule has_entry_frame_end_probe) (simp add: first_frame in_four_def)
  have "has_tile (tiles wn_init) 1 0 = False"
    by (simp add: wn_init_def has_tile_empty)
  then have b: "\<not> has_tile (tiles (ppu_frame_end_handler ppu0 wn_init)) 1 0"
    by (simp add: has_tile_frame_end first_frame_pixel_coords)
  have c: "(1, 0) \<notin> written [PpuFrameEnd ppu0] wn_init {}"
    by (simp add: first_frame_pixel_coords)
  show ?thesis using a b c by simp
qed

end
